theory Spec2Isabelle
  imports Complex_Main "HOL-Library.AList" "HOL-Library.Monad_Syntax"
begin

section \<open>Shot Data API: a model of \<^verbatim>\<open>src/api.py\<close>\<close>

text \<open>
  The module is a Flask application. Its own logic is modelled function by function; what
  it calls in libraries and remote services (the JSON decoder, the two HTTP endpoints,
  base64, MD5, number formatting, the text of an exception) is a field of the record
  \<open>env\<close>, so every theorem holds whatever those do. Redis, the data directory and the
  clock are explicit state.
\<close>

subsection \<open>JSON values and Python's operations on them\<close>

text \<open>
  A decoded JSON document. A Python \<open>dict\<close> keeps insertion order and has unique keys; it is
  an association list, read with \<open>map_of\<close> and written with \<open>AList.update\<close>.
\<close>

datatype json =
    JNull
  | JBool bool
  | JInt int
  | JFloat real
  | JStr string
  | JArr "json list"
  | JObj "(string \<times> json) list"

text \<open>Python's truth value of an object, as \<^verbatim>\<open>if result:\<close> takes it.\<close>

fun truthy :: "json \<Rightarrow> bool" where
  "truthy JNull = False"
| "truthy (JBool b) = b"
| "truthy (JInt i) = (i \<noteq> 0)"
| "truthy (JFloat x) = (x \<noteq> 0)"
| "truthy (JStr s) = (s \<noteq> [])"
| "truthy (JArr xs) = (xs \<noteq> [])"
| "truthy (JObj kvs) = (kvs \<noteq> [])"

definition truthy_opt :: "json option \<Rightarrow> bool" where
  "truthy_opt r = (case r of None \<Rightarrow> False | Some v \<Rightarrow> truthy v)"

text \<open>
  \<^verbatim>\<open>v['k']\<close> and \<^verbatim>\<open>v[0]\<close>; \<open>None\<close> stands for the KeyError, IndexError or TypeError
  that Python raises. Indexing a string by 0 gives its first character as a string.
\<close>

fun subscript_key :: "json \<Rightarrow> string \<Rightarrow> json option" where
  "subscript_key (JObj kvs) k = map_of kvs k"
| "subscript_key _ k = None"

fun subscript_0 :: "json \<Rightarrow> json option" where
  "subscript_0 (JArr []) = None"
| "subscript_0 (JArr (x # xs)) = Some x"
| "subscript_0 (JStr []) = None"
| "subscript_0 (JStr (c # cs)) = Some (JStr [c])"
| "subscript_0 _ = None"

fun as_str :: "json \<Rightarrow> string option" where
  "as_str (JStr s) = Some s"
| "as_str _ = None"

subsection \<open>Configuration, libraries and remote services\<close>

record config =
  DAILY_LIMIT_AUTH :: int
  DAILY_LIMIT_ANON :: int
  OPENAI_API_KEY :: "string option"
  GEMINI_API_KEY :: "string option"
  RESPONSE_TIMEOUT :: real

text \<open>The dictionary \<^verbatim>\<open>CONFIG\<close>; the two keys are read from the process environment.\<close>

definition CONFIG :: "string option \<Rightarrow> string option \<Rightarrow> config" where
  "CONFIG openai_key gemini_key =
     \<lparr>DAILY_LIMIT_AUTH = 20, DAILY_LIMIT_ANON = 3,
      OPENAI_API_KEY = openai_key, GEMINI_API_KEY = gemini_key,
      RESPONSE_TIMEOUT = 2\<rparr>"

text \<open>
  A key is configured when \<^verbatim>\<open>if not self.gemini_key\<close> lets the method go on: it is
  neither \<open>None\<close> nor empty.
\<close>

definition key_set :: "string option \<Rightarrow> bool" where
  "key_set k = (case k of None \<Rightarrow> False | Some s \<Rightarrow> s \<noteq> [])"

text \<open>
  What \<^verbatim>\<open>requests.post\<close> gives: it raises (timeout, connection error), or returns a
  response with a status code and a body; the body is \<open>None\<close> when \<^verbatim>\<open>response.json()\<close>
  raises on it.
\<close>

datatype http_result = RequestRaised | HttpResponse nat "json option"

text \<open>The exceptions that \<^verbatim>\<open>save_shot\<close> and the decorator can raise.\<close>

datatype error =
  KeyError string | TypeError | AttributeError | OSError string | OverflowError
  | RecursionError

record env =
  json_loads :: "string \<Rightarrow> json option"
  gemini_post :: "string \<Rightarrow> string \<Rightarrow> real \<Rightarrow> http_result \<times> real"
  openai_post :: "string \<Rightarrow> string \<Rightarrow> real \<Rightarrow> http_result \<times> real"
  b64encode :: "string \<Rightarrow> string"
  format_2f :: "real \<Rightarrow> string"
  md5_hexdigest :: "string \<Rightarrow> string"
  exc_str :: "error \<Rightarrow> string"

text \<open>
  \<open>json_loads\<close> is \<^verbatim>\<open>json.loads\<close> (\<open>None\<close> when it raises). \<open>gemini_post\<close> and
  \<open>openai_post\<close> take the API key, the base64 image and the \<^verbatim>\<open>timeout\<close> argument, and
  give the result of the call with the seconds it took. \<open>format_2f\<close> is the format
  \<^verbatim>\<open>:.2f\<close>, \<open>md5_hexdigest\<close> is \<^verbatim>\<open>hashlib.md5(s.encode()).hexdigest()\<close>, \<open>exc_str\<close> is
  \<^verbatim>\<open>str(e)\<close>.

  The state of a request towards the network: the reading of \<^verbatim>\<open>time.time()\<close>, which
  advances while a call is in flight, and the calls made so far, each with the provider
  and the \<^verbatim>\<open>timeout\<close> it was given.
\<close>

record net =
  clock :: real
  posts :: "(string \<times> real) list"

subsection \<open>AIProcessor\<close>

text \<open>
  \<^verbatim>\<open>re.search(r'\{.*\}', text, re.DOTALL)\<close> followed by \<^verbatim>\<open>.group()\<close>. The search takes
  the leftmost position where the pattern matches, which is the first opening brace that
  has a closing brace after it; \<open>.*\<close> is greedy and, with DOTALL, crosses lines, so the
  match runs to the last closing brace of the text. Both braces are ASCII, so matching
  on bytes and on code points agree.
\<close>

definition json_match :: "string \<Rightarrow> string option" where
  "json_match text =
     (case dropWhile (\<lambda>c. c \<noteq> CHR ''{'') text of
        [] \<Rightarrow> None
      | b # rest \<Rightarrow>
          if CHR ''}'' \<in> set rest
          then Some (b # rev (dropWhile (\<lambda>c. c \<noteq> CHR ''}'') (rev rest)))
          else None)"

text \<open>
  Lines 146-149 and 197-200: the match, if any, is handed to \<^verbatim>\<open>json.loads\<close>. With no
  match the method falls through to \<^verbatim>\<open>return None\<close>; an exception of \<^verbatim>\<open>json.loads\<close> is
  caught by the method's \<^verbatim>\<open>except\<close>, which prints it and also ends in \<^verbatim>\<open>return None\<close>.
\<close>

definition extract_json :: "env \<Rightarrow> string \<Rightarrow> json option" where
  "extract_json e text =
     (case json_match text of None \<Rightarrow> None | Some m \<Rightarrow> json_loads e m)"

text \<open>\<^verbatim>\<open>result['candidates'][0]['content']['parts'][0]['text']\<close>, which must be a string.\<close>

definition gemini_text :: "json \<Rightarrow> string option" where
  "gemini_text result = do {
     candidates \<leftarrow> subscript_key result ''candidates'';
     candidate \<leftarrow> subscript_0 candidates;
     content \<leftarrow> subscript_key candidate ''content'';
     parts \<leftarrow> subscript_key content ''parts'';
     part \<leftarrow> subscript_0 parts;
     text \<leftarrow> subscript_key part ''text'';
     as_str text
   }"

text \<open>\<^verbatim>\<open>result['choices'][0]['message']['content']\<close>.\<close>

definition openai_text :: "json \<Rightarrow> string option" where
  "openai_text result = do {
     choices \<leftarrow> subscript_key result ''choices'';
     choice \<leftarrow> subscript_0 choices;
     message \<leftarrow> subscript_key choice ''message'';
     content \<leftarrow> subscript_key message ''content'';
     as_str content
   }"

text \<open>What a method does with the result of its \<^verbatim>\<open>requests.post\<close>.\<close>

definition read_response :: "env \<Rightarrow> (json \<Rightarrow> string option) \<Rightarrow> http_result \<Rightarrow> json option" where
  "read_response e text_of r =
     (case r of
        RequestRaised \<Rightarrow> None
      | HttpResponse status_code body \<Rightarrow>
          if status_code = 200
          then (case body of
                  None \<Rightarrow> None
                | Some result \<Rightarrow>
                    (case text_of result of
                       None \<Rightarrow> None
                     | Some text \<Rightarrow> extract_json e text))
          else None)"

definition extract_with_gemini :: "env \<Rightarrow> config \<Rightarrow> string \<Rightarrow> net \<Rightarrow> json option \<times> net" where
  "extract_with_gemini e cfg image_base64 n =
     (case GEMINI_API_KEY cfg of
        None \<Rightarrow> (None, n)
      | Some key \<Rightarrow>
          if key = [] then (None, n)
          else
            let (response, seconds) = gemini_post e key image_base64 (RESPONSE_TIMEOUT cfg);
                n' = n\<lparr>clock := clock n + seconds,
                       posts := posts n @ [(''gemini'', RESPONSE_TIMEOUT cfg)]\<rparr>
            in (read_response e gemini_text response, n'))"

definition extract_with_openai :: "env \<Rightarrow> config \<Rightarrow> string \<Rightarrow> net \<Rightarrow> json option \<times> net" where
  "extract_with_openai e cfg image_base64 n =
     (case OPENAI_API_KEY cfg of
        None \<Rightarrow> (None, n)
      | Some key \<Rightarrow>
          if key = [] then (None, n)
          else
            let (response, seconds) = openai_post e key image_base64 (RESPONSE_TIMEOUT cfg);
                n' = n\<lparr>clock := clock n + seconds,
                       posts := posts n @ [(''openai'', RESPONSE_TIMEOUT cfg)]\<rparr>
            in (read_response e openai_text response, n'))"

text \<open>
  \<^verbatim>\<open>process_image\<close>: Gemini first, OpenAI as the fallback; \<^verbatim>\<open>if result:\<close> is Python's
  truth test, so \<open>None\<close> and an empty object both fall through.
\<close>

definition process_image :: "env \<Rightarrow> config \<Rightarrow> string \<Rightarrow> net \<Rightarrow> (json option \<times> string) \<times> net" where
  "process_image e cfg image_base64 n =
     (let start_time = clock n;
          (result, n1) = extract_with_gemini e cfg image_base64 n
      in if truthy_opt result
         then ((result, ''gemini ('' @ format_2f e (clock n1 - start_time) @ ''s)''), n1)
         else
           let (result2, n2) = extract_with_openai e cfg image_base64 n1
           in if truthy_opt result2
              then ((result2, ''openai ('' @ format_2f e (clock n2 - start_time) @ ''s)''), n2)
              else ((None, ''failed''), n2))"

subsection \<open>Dates and times\<close>

text \<open>
  A naive \<^verbatim>\<open>datetime\<close>, as \<^verbatim>\<open>datetime.now()\<close> returns it: the server's local wall
  clock, with no time zone attached.
\<close>

record datetime =
  year :: nat
  month :: nat
  day :: nat
  hour :: nat
  minute :: nat
  second :: nat
  microsecond :: nat

definition is_leap :: "nat \<Rightarrow> bool" where
  "is_leap y = (y mod 4 = 0 \<and> (y mod 100 \<noteq> 0 \<or> y mod 400 = 0))"

definition days_in_month :: "nat \<Rightarrow> nat \<Rightarrow> nat" where
  "days_in_month y m =
     (if m = 2 then (if is_leap y then 29 else 28)
      else if m = 4 \<or> m = 6 \<or> m = 9 \<or> m = 11 then 30 else 31)"

text \<open>
  \<^verbatim>\<open>d + timedelta(days=1)\<close>: the same time of day on the next calendar date;
  Python raises OverflowError past the year 9999 (\<open>None\<close> here).
\<close>

definition add_one_day :: "datetime \<Rightarrow> datetime option" where
  "add_one_day d =
     (if day d < days_in_month (year d) (month d) then Some (d\<lparr>day := day d + 1\<rparr>)
      else if month d < 12 then Some (d\<lparr>month := month d + 1, day := 1\<rparr>)
      else if year d < 9999 then Some (d\<lparr>year := year d + 1, month := 1, day := 1\<rparr>)
      else None)"

text \<open>\<^verbatim>\<open>.replace(hour=0, minute=0, second=0)\<close>: the microsecond is not among the arguments.\<close>

definition replace_hms0 :: "datetime \<Rightarrow> datetime" where
  "replace_hms0 d = d\<lparr>hour := 0, minute := 0, second := 0\<rparr>"

text \<open>
  The last \<open>w\<close> decimal digits of a number, zero-padded: the formats \<^verbatim>\<open>%02d\<close>, \<^verbatim>\<open>%04d\<close>
  and \<^verbatim>\<open>%06d\<close> on the fields of a date, each of which fits its width (the year of a
  running server has four digits).
\<close>

definition digit :: "nat \<Rightarrow> char" where
  "digit n = ''0123456789'' ! (n mod 10)"

fun zero_pad :: "nat \<Rightarrow> nat \<Rightarrow> string" where
  "zero_pad 0 n = []"
| "zero_pad (Suc w) n = zero_pad w (n div 10) @ [digit n]"

text \<open>\<^verbatim>\<open>strftime('%Y-%m-%d')\<close> and \<^verbatim>\<open>isoformat()\<close>, which leaves a zero microsecond out.\<close>

definition strftime_ymd :: "datetime \<Rightarrow> string" where
  "strftime_ymd d =
     zero_pad 4 (year d) @ ''-'' @ zero_pad 2 (month d) @ ''-'' @ zero_pad 2 (day d)"

definition isoformat :: "datetime \<Rightarrow> string" where
  "isoformat d =
     strftime_ymd d @ ''T'' @ zero_pad 2 (hour d) @ '':'' @ zero_pad 2 (minute d)
       @ '':'' @ zero_pad 2 (second d)
       @ (if microsecond d = 0 then [] else ''.'' @ zero_pad 6 (microsecond d))"

text \<open>
  Each call of \<^verbatim>\<open>datetime.now()\<close> reads the clock anew. A request makes up to four
  readings: for the Redis key (line 68 or 73), for the reset time of a denial (line 87),
  for the shot id (line 233) and for the record's timestamp (line 239).
\<close>

record readings =
  now_key :: datetime
  now_reset :: datetime
  now_id :: datetime
  now_stamp :: datetime

subsection \<open>Redis\<close>

text \<open>
  The store maps a key to its value and its time to live in seconds (\<open>None\<close>: no expiry).
  The keys of this module are written by INCR only, so a value is an integer and
  \<^verbatim>\<open>int(current)\<close> reads it back. A command is one atomic step of the server, and the
  server is taken to answer every command.
\<close>

type_synonym redis = "string \<rightharpoonup> int \<times> nat option"

definition redis_get :: "redis \<Rightarrow> string \<Rightarrow> int option" where
  "redis_get r k = map_option fst (r k)"

definition redis_incr :: "redis \<Rightarrow> string \<Rightarrow> redis" where
  "redis_incr r k =
     (case r k of None \<Rightarrow> r(k \<mapsto> (1, None)) | Some (v, ttl) \<Rightarrow> r(k \<mapsto> (v + 1, ttl)))"

definition redis_expire :: "redis \<Rightarrow> string \<Rightarrow> nat \<Rightarrow> redis" where
  "redis_expire r k seconds =
     (case r k of None \<Rightarrow> r | Some (v, ttl) \<Rightarrow> r(k \<mapsto> (v, Some seconds)))"

text \<open>The passing of \<open>d\<close> seconds: a key whose time to live has run out is gone.\<close>

definition elapse :: "nat \<Rightarrow> redis \<Rightarrow> redis" where
  "elapse d r =
     (\<lambda>k. case r k of
             None \<Rightarrow> None
           | Some (v, None) \<Rightarrow> Some (v, None)
           | Some (v, Some t) \<Rightarrow> if t \<le> d then None else Some (v, Some (t - d)))"

subsection \<open>The rate limiting decorator\<close>

type_synonym session = "string \<rightharpoonup> string"

record request =
  forwarded_for :: "string option"
  remote_addr :: "string option"
  image :: "(string \<times> string) option"

text \<open>
  \<open>forwarded_for\<close> is the header X-Forwarded-For, \<open>image\<close> the uploaded file with its
  filename and its bytes.

  Lines 64-74: the key and the limit. \<^verbatim>\<open>if user_id:\<close> is a truth test, so a session
  without user id, or with an empty one, is anonymous.
\<close>

definition quota_key :: "config \<Rightarrow> session \<Rightarrow> request \<Rightarrow> datetime \<Rightarrow> string \<times> int" where
  "quota_key cfg sess req now =
     (let anon =
            (let ip = (case forwarded_for req of
                         Some h \<Rightarrow> h
                       | None \<Rightarrow> (case remote_addr req of Some a \<Rightarrow> a | None \<Rightarrow> ''None''))
             in (''rate_limit:anon:'' @ ip @ '':'' @ strftime_ymd now, DAILY_LIMIT_ANON cfg))
      in case sess ''user_id'' of
           None \<Rightarrow> anon
         | Some user_id \<Rightarrow>
             if user_id = [] then anon
             else (''rate_limit:user:'' @ user_id @ '':'' @ strftime_ymd now,
                   DAILY_LIMIT_AUTH cfg))"

text \<open>
  The body of a response is the dictionary given to \<^verbatim>\<open>jsonify\<close>; a handler returns
  either a bare response or a tuple of a response and a status.
\<close>

datatype response = Bare "(string \<times> json) list" | WithStatus "(string \<times> json) list" nat

datatype quota = Denied "(string \<times> json) list" | Admitted int int

text \<open>
  Lines 76-94, the check and the increment: GET, the comparison with the limit, then
  INCR and EXPIRE. \<open>Admitted current limit\<close> carries the count read before the increment.
  The addition of a day is the only step that can raise.
\<close>

definition denial :: "int \<Rightarrow> datetime \<Rightarrow> error + quota" where
  "denial limit now =
     (case add_one_day now of
        None \<Rightarrow> Inl OverflowError
      | Some tomorrow \<Rightarrow>
          Inr (Denied [(''error'', JStr ''Daily limit exceeded''),
                       (''limit'', JInt limit),
                       (''reset_time'', JStr (isoformat (replace_hms0 tomorrow)))]))"

definition check_quota ::
  "config \<Rightarrow> session \<Rightarrow> request \<Rightarrow> readings \<Rightarrow> redis \<Rightarrow> (error + quota) \<times> redis" where
  "check_quota cfg sess req rd r =
     (let (key, limit) = quota_key cfg sess req (now_key rd);
          current = (case redis_get r key of None \<Rightarrow> 0 | Some v \<Rightarrow> v)
      in if current \<ge> limit then (denial limit (now_reset rd), r)
         else (Inr (Admitted current limit), redis_expire (redis_incr r key) key 86400))"

text \<open>Lines 101-105: the dictionary stored under \<^verbatim>\<open>'rate_limit'\<close>.\<close>

definition rate_info :: "int \<Rightarrow> int \<Rightarrow> json" where
  "rate_info current limit =
     JObj [(''used'', JInt (current + 1)), (''limit'', JInt limit),
           (''remaining'', JInt (limit - (current + 1)))]"

text \<open>
  \<^verbatim>\<open>decorated_function\<close>, for a handler \<open>f\<close>. The handler is called after INCR and
  EXPIRE, on the state they leave (Redis and a state \<open>s\<close> of the handler's own); its
  response gets the rate limit only when it is a tuple.
\<close>

definition rate_limit ::
  "(redis \<times> 's \<Rightarrow> response \<times> redis \<times> 's) \<Rightarrow> config \<Rightarrow> session \<Rightarrow> request \<Rightarrow> readings
     \<Rightarrow> redis \<times> 's \<Rightarrow> (error + response) \<times> redis \<times> 's" where
  "rate_limit f cfg sess req rd rs =
     (let (r, s) = rs
      in case check_quota cfg sess req rd r of
           (Inl err, r') \<Rightarrow> (Inl err, r', s)
         | (Inr (Denied body), r') \<Rightarrow> (Inr (WithStatus body 429), r', s)
         | (Inr (Admitted current limit), r') \<Rightarrow>
             (let (response, rs') = f (r', s)
              in (Inr (case response of
                         WithStatus data status \<Rightarrow>
                           WithStatus (AList.update ''rate_limit'' (rate_info current limit) data)
                             status
                       | Bare data \<Rightarrow> Bare data),
                  rs')))"

subsection \<open>DataStore\<close>

text \<open>
  The data directory. A file is seen through \<^verbatim>\<open>json.load\<close>, its only reader: it holds
  text that decodes to a document, or text that \<^verbatim>\<open>json.load\<close> rejects (an empty file, a
  truncated one).

  Writing has two steps, each of which can fail. \<open>open_error p\<close> is the message of the
  OSError that \<^verbatim>\<open>open(p, 'w')\<close> raises, if it does (a read-only directory); nothing has
  been opened then and the file is as it was. Once \<^verbatim>\<open>open\<close> has returned, the file has
  been truncated. \<open>dump_result p d\<close> is what \<^verbatim>\<open>json.dump(d, f, indent=2)\<close> and the closing
  of the file do next: \<open>Inl err\<close> when an exception is raised on the way (a full disk,
  RecursionError on a deeply nested document), which leaves the file empty or with a
  proper prefix of the text, and so with text that \<^verbatim>\<open>json.load\<close> rejects; \<open>Inr c\<close> when
  the text is written, \<open>c\<close> being what \<^verbatim>\<open>json.load\<close> will make of it: the document \<open>d\<close>
  when the text reads back, \<open>NotJson\<close> when \<^verbatim>\<open>json.load\<close> raises on it. Nothing is assumed
  about either.
\<close>

datatype file_content = Document json | NotJson

record store =
  files :: "string \<rightharpoonup> file_content"
  open_error :: "string \<Rightarrow> string option"
  dump_result :: "string \<Rightarrow> json \<Rightarrow> error + file_content"

definition user_file :: "string \<Rightarrow> string" where
  "user_file user_id = ''data/user_'' @ user_id @ ''.json''"

text \<open>
  \<^verbatim>\<open>user_data['shots'].append(shot_record)\<close>: the subscript raises KeyError or TypeError,
  \<^verbatim>\<open>append\<close> exists on a list only.
\<close>

definition append_shot :: "json \<Rightarrow> json \<Rightarrow> error + json" where
  "append_shot user_data shot_record =
     (case user_data of
        JObj kvs \<Rightarrow>
          (case map_of kvs ''shots'' of
             None \<Rightarrow> Inl (KeyError ''shots'')
           | Some (JArr shots) \<Rightarrow>
               Inr (JObj (AList.update ''shots'' (JArr (shots @ [shot_record])) kvs))
           | Some _ \<Rightarrow> Inl AttributeError)
      | _ \<Rightarrow> Inl TypeError)"

text \<open>
  \<^verbatim>\<open>save_shot\<close>. The store is returned in every case, since a failure after \<^verbatim>\<open>open\<close>
  has changed it.
\<close>

definition save_shot ::
  "env \<Rightarrow> string \<Rightarrow> json \<Rightarrow> readings \<Rightarrow> store \<Rightarrow> (error + string) \<times> store" where
  "save_shot e user_id shot_data rd st =
     (let shot_id = take 12 (md5_hexdigest e (user_id @ isoformat (now_id rd)));
          shot_record = JObj [(''id'', JStr shot_id), (''user_id'', JStr user_id),
                              (''timestamp'', JStr (isoformat (now_stamp rd))),
                              (''data'', shot_data)];
          user_data = (case files st (user_file user_id) of
                         Some (Document d) \<Rightarrow> d
                       | _ \<Rightarrow> JObj [(''shots'', JArr [])])
      in case append_shot user_data shot_record of
           Inl err \<Rightarrow> (Inl err, st)
         | Inr user_data' \<Rightarrow>
             (case open_error st (user_file user_id) of
                Some msg \<Rightarrow> (Inl (OSError msg), st)
              | None \<Rightarrow>
                  (case dump_result st (user_file user_id) user_data' of
                     Inl err \<Rightarrow>
                       (Inl err, st\<lparr>files := (files st)(user_file user_id \<mapsto> NotJson)\<rparr>)
                   | Inr content \<Rightarrow>
                       (Inr shot_id,
                        st\<lparr>files := (files st)(user_file user_id \<mapsto> content)\<rparr>))))"

text \<open>\<^verbatim>\<open>get_user_shots\<close>: the bare \<^verbatim>\<open>except\<close> turns every failure into an empty list.\<close>

definition get_user_shots :: "string \<Rightarrow> store \<Rightarrow> json" where
  "get_user_shots user_id st =
     (case files st (user_file user_id) of
        Some (Document (JObj kvs)) \<Rightarrow>
          (case map_of kvs ''shots'' of None \<Rightarrow> JArr [] | Some v \<Rightarrow> v)
      | _ \<Rightarrow> JArr [])"

subsection \<open>The route \<^verbatim>\<open>/extract\<close>\<close>

text \<open>
  \<^verbatim>\<open>extract_shot_data\<close>, without its decorator. Everything is inside one \<^verbatim>\<open>try\<close>; the
  exceptions modelled are those of \<^verbatim>\<open>save_shot\<close>.
\<close>

definition error_response :: "string \<Rightarrow> nat \<Rightarrow> response" where
  "error_response msg status = WithStatus [(''error'', JStr msg)] status"

definition extract_shot_data ::
  "env \<Rightarrow> config \<Rightarrow> session \<Rightarrow> request \<Rightarrow> readings \<Rightarrow> net \<times> store
     \<Rightarrow> response \<times> net \<times> store" where
  "extract_shot_data e cfg sess req rd ns =
     (let (n, st) = ns
      in case image req of
           None \<Rightarrow> (error_response ''No image provided'' 400, n, st)
         | Some (filename, image_bytes) \<Rightarrow>
             if filename = [] then (error_response ''No image selected'' 400, n, st)
             else
               let image_base64 = b64encode e image_bytes;
                   ((shot_data, processor_used), n') = process_image e cfg image_base64 n
               in case shot_data of
                    None \<Rightarrow> (error_response ''Failed to extract data from image'' 422, n', st)
                  | Some data \<Rightarrow>
                      if \<not> truthy data
                      then (error_response ''Failed to extract data from image'' 422, n', st)
                      else
                        (case sess ''user_id'' of
                           None \<Rightarrow>
                             (Bare [(''success'', JBool True), (''shot_id'', JNull),
                                    (''data'', data), (''processor'', JStr processor_used),
                                    (''saved'', JBool False)],
                              n', st)
                         | Some user_id \<Rightarrow>
                             (case save_shot e user_id data rd st of
                                (Inl err, st') \<Rightarrow>
                                  (error_response (exc_str e err) 500, n', st')
                              | (Inr shot_id, st') \<Rightarrow>
                                  (Bare [(''success'', JBool True), (''shot_id'', JStr shot_id),
                                         (''data'', data),
                                         (''processor'', JStr processor_used),
                                         (''saved'', JBool (shot_id \<noteq> []))],
                                   n', st'))))"

text \<open>
  The route as Flask serves it: the handler under its decorator. The handler never
  touches Redis.
\<close>

definition extract_handler ::
  "env \<Rightarrow> config \<Rightarrow> session \<Rightarrow> request \<Rightarrow> readings \<Rightarrow> redis \<times> net \<times> store
     \<Rightarrow> response \<times> redis \<times> net \<times> store" where
  "extract_handler e cfg sess req rd rs =
     (let (r, ns) = rs; (response, ns') = extract_shot_data e cfg sess req rd ns
      in (response, r, ns'))"

definition extract_route ::
  "env \<Rightarrow> config \<Rightarrow> session \<Rightarrow> request \<Rightarrow> readings \<Rightarrow> redis \<times> net \<times> store
     \<Rightarrow> (error + response) \<times> redis \<times> net \<times> store" where
  "extract_route e cfg sess req rd =
     rate_limit (extract_handler e cfg sess req rd) cfg sess req rd"

subsection \<open>Sequences of requests\<close>

text \<open>
  Requests served one after the other: each entry is the number of seconds since the
  request before it and the clock readings of the request; the outcomes of the quota
  check are collected in order.
\<close>

fun run_quota ::
  "config \<Rightarrow> session \<Rightarrow> request \<Rightarrow> (nat \<times> readings) list \<Rightarrow> redis
     \<Rightarrow> (error + quota) list \<times> redis" where
  "run_quota cfg sess req [] r = ([], r)"
| "run_quota cfg sess req ((d, rd) # calls) r =
     (let (q, r') = check_quota cfg sess req rd (elapse d r);
          (qs, r'') = run_quota cfg sess req calls r'
      in (q # qs, r''))"

text \<open>
  Requests served at the same time. A worker runs lines 76-94 as three commands to the
  Redis server, GET, INCR and EXPIRE, each atomic by itself; between two of them another
  worker's command may be served. \<open>AtIncr current\<close> is a worker that has read \<open>current\<close>,
  found it below the limit and has not yet sent INCR; \<open>Finished admitted\<close> is a worker
  past the check.
\<close>

datatype worker = AtGet | AtIncr int | AtExpire int | Finished bool

fun step :: "string \<Rightarrow> int \<Rightarrow> worker \<Rightarrow> redis \<Rightarrow> worker \<times> redis" where
  "step key limit AtGet r =
     (let current = (case redis_get r key of None \<Rightarrow> 0 | Some v \<Rightarrow> v)
      in if current \<ge> limit then (Finished False, r) else (AtIncr current, r))"
| "step key limit (AtIncr current) r = (AtExpire current, redis_incr r key)"
| "step key limit (AtExpire current) r = (Finished True, redis_expire r key 86400)"
| "step key limit (Finished admitted) r = (Finished admitted, r)"

text \<open>
  Two workers on the same key under a schedule: \<open>True\<close> lets the first worker send its
  next command, \<open>False\<close> the second.
\<close>

fun interleave ::
  "string \<Rightarrow> int \<Rightarrow> bool list \<Rightarrow> worker \<times> worker \<times> redis \<Rightarrow> worker \<times> worker \<times> redis" where
  "interleave key limit [] s = s"
| "interleave key limit (first # schedule) (w1, w2, r) =
     (if first
      then (let (w1', r') = step key limit w1 r in interleave key limit schedule (w1', w2, r'))
      else (let (w2', r') = step key limit w2 r in interleave key limit schedule (w1, w2', r')))"

subsection \<open>The specification's wording, for comparison\<close>

text \<open>
  The definitions of this subsection follow the words of the specification, not the code:
  they say what the code is compared with.

  The first balanced object literal of a text: from an opening brace to the closing
  brace that brings the nesting depth back to zero, for the first opening brace that has
  one.
\<close>

fun balanced_prefix :: "nat \<Rightarrow> string \<Rightarrow> string option" where
  "balanced_prefix depth [] = None"
| "balanced_prefix depth (c # cs) =
     (if c = CHR ''{'' then map_option (Cons c) (balanced_prefix (Suc depth) cs)
      else if c = CHR ''}'' then
        (case depth of
           0 \<Rightarrow> None
         | Suc 0 \<Rightarrow> Some [c]
         | Suc (Suc d) \<Rightarrow> map_option (Cons c) (balanced_prefix (Suc d) cs))
      else map_option (Cons c) (balanced_prefix depth cs))"

fun first_balanced_object :: "string \<Rightarrow> string option" where
  "first_balanced_object [] = None"
| "first_balanced_object (c # cs) =
     (if c = CHR ''{''
      then (case balanced_prefix 0 (c # cs) of
              Some m \<Rightarrow> Some m
            | None \<Rightarrow> first_balanced_object cs)
      else first_balanced_object cs)"

text \<open>Midnight at the start of the day after \<open>d\<close>.\<close>

definition next_midnight :: "datetime \<Rightarrow> datetime option" where
  "next_midnight d =
     map_option (\<lambda>t. t\<lparr>hour := 0, minute := 0, second := 0, microsecond := 0\<rparr>)
       (add_one_day d)"

text \<open>
  The time left of a global budget \<open>RESPONSE_TIMEOUT\<close> for a request that started at
  \<open>start_time\<close>, at the moment \<open>now\<close>.
\<close>

definition remaining_budget :: "config \<Rightarrow> real \<Rightarrow> real \<Rightarrow> real" where
  "remaining_budget cfg start_time now = RESPONSE_TIMEOUT cfg - (now - start_time)"

text \<open>
  The projection onto the schema of ShotMetrics: the seven numeric keys, each kept when
  its value is a number or null, and \<open>units\<close>, kept when it is an object of strings.
\<close>

definition metric_keys :: "string list" where
  "metric_keys = [''ball_speed'', ''launch_angle'', ''spin_rate'', ''carry_distance'',
                  ''club_speed'', ''smash_factor'', ''apex_height'']"

fun numeric_or_null :: "json \<Rightarrow> bool" where
  "numeric_or_null JNull = True"
| "numeric_or_null (JInt i) = True"
| "numeric_or_null (JFloat x) = True"
| "numeric_or_null _ = False"

fun string_map :: "json \<Rightarrow> bool" where
  "string_map (JObj kvs) = list_all (\<lambda>(k, v). as_str v \<noteq> None) kvs"
| "string_map _ = False"

definition project_metrics :: "(string \<times> json) list \<Rightarrow> (string \<times> json) list" where
  "project_metrics kvs =
     filter (\<lambda>(k, v). (k \<in> set metric_keys \<and> numeric_or_null v)
                       \<or> (k = ''units'' \<and> string_map v)) kvs"

subsection \<open>Sample inputs\<close>

text \<open>
  A concrete environment for the examples. \<open>sample_loads\<close>, \<open>sample_md5\<close>, \<open>sample_2f\<close>
  and the base64 encoder give the values of the Python library on the arguments that
  occur in the examples; the two providers answer as the arguments of \<open>sample_env\<close> say.
  In \<open>sample_store\<close> every write goes through and reads back, as \<^verbatim>\<open>json.dump\<close> and
  \<^verbatim>\<open>json.load\<close> do on the small documents of the examples; in \<open>read_only_store\<close> no file
  can be opened for writing; on \<open>full_disk\<close> a file can be opened but not written.
\<close>

definition sample_loads :: "string \<Rightarrow> json option" where
  \<open>sample_loads s =
     (if s = ''{"ball_speed": 150}'' then Some (JObj [(''ball_speed'', JInt 150)])
      else if s = ''{"ball_speed": 150, "club": "7i"}''
      then Some (JObj [(''ball_speed'', JInt 150), (''club'', JStr ''7i'')])
      else if s = ''{}'' then Some (JObj [])
      else None)\<close>

definition sample_md5 :: "string \<Rightarrow> string" where
  "sample_md5 s =
     (if s = ''u12024-05-01T10:30:00.123456'' then ''fbe5c72134e010cfb2d5a01f8aee75b1''
      else if s = ''u12024-05-01T10:31:00.123456'' then ''e28380c9f9615a41bef8ca2609a3926d''
      else ''d41d8cd98f00b204e9800998ecf8427e'')"

definition sample_2f :: "real \<Rightarrow> string" where
  "sample_2f x =
     (if x = 1 / 2 then ''0.50'' else if x = 4 / 5 then ''0.80''
      else if x = 5 / 2 then ''2.50'' else ''0.00'')"

fun sample_str :: "error \<Rightarrow> string" where
  "sample_str (KeyError k) = [CHR 0x27] @ k @ [CHR 0x27]"
| "sample_str (OSError msg) = msg"
| "sample_str TypeError = ''list indices must be integers or slices, not str''"
| "sample_str AttributeError =
     [CHR 0x27] @ ''dict'' @ [CHR 0x27] @ '' object has no attribute ''
       @ [CHR 0x27] @ ''append'' @ [CHR 0x27]"
| "sample_str OverflowError = ''date value out of range''"

definition sample_env :: "http_result \<times> real \<Rightarrow> http_result \<times> real \<Rightarrow> env" where
  "sample_env gemini openai =
     \<lparr>json_loads = sample_loads,
      gemini_post = (\<lambda>key image_base64 timeout. gemini),
      openai_post = (\<lambda>key image_base64 timeout. openai),
      b64encode = (\<lambda>bytes. if bytes = ''shot'' then ''c2hvdA=='' else []),
      format_2f = sample_2f,
      md5_hexdigest = sample_md5,
      exc_str = sample_str\<rparr>"

definition gemini_reply :: "string \<Rightarrow> http_result" where
  "gemini_reply text =
     HttpResponse 200
       (Some (JObj [(''candidates'',
                     JArr [JObj [(''content'',
                                  JObj [(''parts'', JArr [JObj [(''text'', JStr text)]])])]])]))"

definition openai_reply :: "string \<Rightarrow> http_result" where
  "openai_reply text =
     HttpResponse 200
       (Some (JObj [(''choices'',
                     JArr [JObj [(''message'', JObj [(''content'', JStr text)])]])]))"

definition sample_cfg :: config where
  "sample_cfg = CONFIG (Some ''sk-test'') (Some ''AIza-test'')"

definition sample_now :: datetime where
  "sample_now = \<lparr>year = 2024, month = 5, day = 1, hour = 10, minute = 30, second = 0,
                  microsecond = 123456\<rparr>"

definition sample_readings :: readings where
  "sample_readings = \<lparr>now_key = sample_now, now_reset = sample_now, now_id = sample_now,
                       now_stamp = sample_now\<rparr>"

definition sample_session :: session where
  "sample_session = [''user_id'' \<mapsto> ''u1'']"

definition sample_request :: request where
  "sample_request = \<lparr>forwarded_for = None, remote_addr = Some ''203.0.113.7'',
                      image = Some (''shot.jpg'', ''shot'')\<rparr>"

definition sample_net :: net where
  "sample_net = \<lparr>clock = 1000, posts = []\<rparr>"

definition sample_store :: store where
  "sample_store = \<lparr>files = Map.empty, open_error = (\<lambda>p. None),
                     dump_result = (\<lambda>p d. Inr (Document d))\<rparr>"

definition read_only_store :: store where
  "read_only_store =
     \<lparr>files = Map.empty,
      open_error =
        (\<lambda>p. Some (''[Errno 13] Permission denied: '' @ [CHR 0x27] @ p @ [CHR 0x27])),
      dump_result = (\<lambda>p d. Inr (Document d))\<rparr>"

definition sample_metrics :: json where
  "sample_metrics = JObj [(''ball_speed'', JInt 150)]"

definition two_objects :: string where
  \<open>two_objects = ''{"ball_speed": 150} or {"ball_speed": 151}''\<close>

definition wrapped_object :: string where
  \<open>wrapped_object = ''Here you go: {"ball_speed": 150} Enjoy!''\<close>

definition good_env :: env where
  \<open>good_env = sample_env (gemini_reply ''{"ball_speed": 150}'', 1 / 2) (RequestRaised, 2)\<close>

definition slow_gemini_env :: env where
  \<open>slow_gemini_env =
     sample_env (RequestRaised, 2) (openai_reply ''{"ball_speed": 150}'', 1 / 2)\<close>

definition empty_object_env :: env where
  \<open>empty_object_env =
     sample_env (gemini_reply ''{}'', 1 / 2) (openai_reply ''{"ball_speed": 150}'', 3 / 10)\<close>

definition extra_key_env :: env where
  \<open>extra_key_env =
     sample_env (gemini_reply ''{"ball_speed": 150, "club": "7i"}'', 1 / 2)
       (RequestRaised, 2)\<close>

definition stored_record :: "json \<Rightarrow> json" where
  "stored_record m =
     JObj [(''id'', JStr ''fbe5c72134e0''), (''user_id'', JStr ''u1''),
           (''timestamp'', JStr ''2024-05-01T10:30:00.123456''), (''data'', m)]"

definition store_with :: "json \<Rightarrow> store" where
  "store_with m =
     sample_store\<lparr>files := [''data/user_u1.json'' \<mapsto>
                                Document (JObj [(''shots'', JArr [stored_record m])])]\<rparr>"

definition extra_key_metrics :: json where
  "extra_key_metrics = JObj [(''ball_speed'', JInt 150), (''club'', JStr ''7i'')]"

definition no_image_request :: request where
  "no_image_request = \<lparr>forwarded_for = None, remote_addr = Some ''203.0.113.7'',
                        image = None\<rparr>"

definition sample_key :: string where
  "sample_key = ''rate_limit:user:u1:2024-05-01''"

definition denied_message :: string where
  "denied_message =
     ''[Errno 13] Permission denied: '' @ [CHR 0x27] @ ''data/user_u1.json'' @ [CHR 0x27]"

definition readings_at :: "nat \<Rightarrow> readings" where
  "readings_at i =
     (let now = sample_now\<lparr>minute := 30 + i\<rparr>
      in \<lparr>now_key = now, now_reset = now, now_id = now, now_stamp = now\<rparr>)"

definition sample_calls :: "(nat \<times> readings) list" where
  "sample_calls = map (\<lambda>i. (60, readings_at i)) [0..<20]"

definition last_call :: "nat \<times> readings" where
  "last_call = (60, readings_at 20)"

definition sample_tomorrow :: datetime where
  "sample_tomorrow = \<lparr>year = 2024, month = 5, day = 2, hour = 10, minute = 50, second = 0,
                       microsecond = 123456\<rparr>"

definition last_slot :: redis where
  "last_slot = [''rate_limit:user:u1:2024-05-01'' \<mapsto> (19, Some 86400)]"



definition full_disk :: "json \<Rightarrow> store" where
  "full_disk m =
     (store_with m)\<lparr>dump_result :=
                       (\<lambda>p d. Inl (OSError ''[Errno 28] No space left on device''))\<rparr>"

subsection \<open>Invariants of the ledger and of the counter\<close>

text \<open>
  A user's file as \<^verbatim>\<open>save_shot\<close> finds it when nothing else writes to the data directory:
  absent, rejected by \<^verbatim>\<open>json.load\<close>, or an object whose \<open>shots\<close> is a list.
\<close>

fun has_shots :: "json \<Rightarrow> bool" where
  "has_shots (JObj kvs) = (case map_of kvs ''shots'' of Some (JArr shots) \<Rightarrow> True | _ \<Rightarrow> False)"
| "has_shots _ = False"

definition ledger_ok :: "store \<Rightarrow> string \<Rightarrow> bool" where
  "ledger_ok st user_id =
     (case files st (user_file user_id) of Some (Document d) \<Rightarrow> has_shots d | _ \<Rightarrow> True)"

text \<open>
  Two workers that have both read the count \<open>c\<close> and found it below the limit: each is
  about to send INCR, about to send EXPIRE, or finished and admitted; the counter is \<open>c\<close>
  plus the INCRs sent so far.
\<close>

fun past_get :: "int \<Rightarrow> worker \<Rightarrow> bool" where
  "past_get c AtGet = False"
| "past_get c (AtIncr current) = (current = c)"
| "past_get c (AtExpire current) = (current = c)"
| "past_get c (Finished admitted) = admitted"

fun incr_sent :: "worker \<Rightarrow> int" where
  "incr_sent AtGet = 0"
| "incr_sent (AtIncr current) = 0"
| "incr_sent (AtExpire current) = 1"
| "incr_sent (Finished admitted) = (if admitted then 1 else 0)"

fun commands_left :: "worker \<Rightarrow> nat" where
  "commands_left AtGet = 3"
| "commands_left (AtIncr current) = 2"
| "commands_left (AtExpire current) = 1"
| "commands_left (Finished admitted) = 0"

definition both_read :: "string \<Rightarrow> int \<Rightarrow> worker \<times> worker \<times> redis \<Rightarrow> bool" where
  "both_read key c s \<longleftrightarrow>
     past_get c (fst s) \<and> past_get c (fst (snd s))
     \<and> (case redis_get (snd (snd s)) key of None \<Rightarrow> 0 | Some v \<Rightarrow> v) =
         c + incr_sent (fst s) + incr_sent (fst (snd s))
     \<and> (redis_get (snd (snd s)) key = None \<longrightarrow>
          incr_sent (fst s) = 0 \<and> incr_sent (fst (snd s)) = 0)"

text \<open>The counter of a key is live: absent and zero, or present with a full day to live.\<close>

definition live :: "redis \<Rightarrow> string \<Rightarrow> int \<Rightarrow> bool" where
  "live r key c \<longleftrightarrow> (r key = None \<and> c = 0) \<or> r key = Some (c, Some 86400)"

text \<open>
  Once the first worker's INCR has taken the last slot: the first worker is past its INCR,
  the second has not read a count below the limit, and the counter is at the limit.
\<close>

definition slot_taken :: "string \<Rightarrow> int \<Rightarrow> worker \<times> worker \<times> redis \<Rightarrow> bool" where
  "slot_taken key limit s \<longleftrightarrow>
     (fst s = AtExpire (limit - 1) \<or> fst s = Finished True)
     \<and> (fst (snd s) = AtGet \<or> fst (snd s) = Finished False)
     \<and> redis_get (snd (snd s)) key = Some limit"

section \<open>Properties\<close>

subsection \<open>Evaluation of the sample inputs\<close>

lemma zero_pad_numeral:
  "zero_pad (numeral k) n = zero_pad (pred_numeral k) (n div 10) @ [digit n]"
  by (simp only: numeral_eq_Suc [of k] zero_pad.simps)

lemma strftime_sample: "strftime_ymd sample_now = ''2024-05-01''"
  by (simp add: strftime_ymd_def sample_now_def zero_pad_numeral digit_def)

lemma isoformat_sample: "isoformat sample_now = ''2024-05-01T10:30:00.123456''"
  by (simp add: isoformat_def strftime_sample) (simp add: sample_now_def zero_pad_numeral digit_def)

lemma save_sample_any:
  "save_shot (sample_env g1 g2) ''u1'' m sample_readings sample_store
     = (Inr ''fbe5c72134e0'', store_with m)"
  by (simp add: save_shot_def append_shot_def Let_def sample_env_def sample_md5_def
      sample_readings_def isoformat_sample sample_store_def user_file_def store_with_def
      stored_record_def)

subsection \<open>ShotLedger: \<^verbatim>\<open>save_shot\<close> and \<^verbatim>\<open>get_user_shots\<close>\<close>


lemma append_shot_has_shots:
  assumes "has_shots d"
  shows "\<exists>kvs shots. d = JObj kvs \<and> map_of kvs ''shots'' = Some (JArr shots)
           \<and> append_shot d shot_record =
               Inr (JObj (AList.update ''shots'' (JArr (shots @ [shot_record])) kvs))"
proof (cases d)
  case (JObj kvs)
  with assms obtain shots where "map_of kvs ''shots'' = Some (JArr shots)"
    by (auto split: option.splits json.splits)
  with JObj show ?thesis
    by (simp add: append_shot_def)
qed (use assms in simp_all)

lemma append_shot_Inr:
  assumes "append_shot d shot_record = Inr d'"
  shows "\<exists>kvs shots. d = JObj kvs \<and> map_of kvs ''shots'' = Some (JArr shots)
           \<and> d' = JObj (AList.update ''shots'' (JArr (shots @ [shot_record])) kvs)"
  using assms
  by (auto simp: append_shot_def split: json.splits option.splits)

lemma has_shots_update: "has_shots (JObj (AList.update ''shots'' (JArr shots) kvs))"
  by (simp add: update_conv)

text \<open>What \<^verbatim>\<open>save_shot\<close> has done whenever it returns an id.\<close>

lemma save_shot_Inr:
  assumes "save_shot e user_id m rd st = (Inr shot_id, st')"
  shows "\<exists>shots kvs content.
           get_user_shots user_id st = JArr shots
           \<and> map_of kvs ''shots'' =
               Some (JArr (shots @ [JObj [(''id'', JStr shot_id), (''user_id'', JStr user_id),
                                          (''timestamp'', JStr (isoformat (now_stamp rd))),
                                          (''data'', m)]]))
           \<and> open_error st (user_file user_id) = None
           \<and> dump_result st (user_file user_id) (JObj kvs) = Inr content
           \<and> st' = st\<lparr>files := (files st)(user_file user_id \<mapsto> content)\<rparr>"
proof -
  define shot_record where "shot_record =
    JObj [(''id'', JStr (take 12 (md5_hexdigest e (user_id @ isoformat (now_id rd))))),
          (''user_id'', JStr user_id), (''timestamp'', JStr (isoformat (now_stamp rd))),
          (''data'', m)]"
  define user_data where "user_data =
    (case files st (user_file user_id) of
       Some (Document d) \<Rightarrow> d
     | _ \<Rightarrow> JObj [(''shots'', JArr [])])"
  from assms obtain user_data' content where
    ap: "append_shot user_data shot_record = Inr user_data'"
    and op: "open_error st (user_file user_id) = None"
    and du: "dump_result st (user_file user_id) user_data' = Inr content"
    and id: "shot_id = take 12 (md5_hexdigest e (user_id @ isoformat (now_id rd)))"
    and st': "st' = st\<lparr>files := (files st)(user_file user_id \<mapsto> content)\<rparr>"
    unfolding save_shot_def Let_def shot_record_def [symmetric] user_data_def [symmetric]
    by (auto split: sum.splits option.splits)
  from append_shot_Inr [OF ap] obtain kvs shots where
    ud: "user_data = JObj kvs" and sh: "map_of kvs ''shots'' = Some (JArr shots)"
    and ud': "user_data' = JObj (AList.update ''shots'' (JArr (shots @ [shot_record])) kvs)"
    by blast
  have g: "get_user_shots user_id st = JArr shots"
    using ud sh unfolding user_data_def get_user_shots_def
    by (auto split: option.splits file_content.splits json.splits)
  have "map_of (AList.update ''shots'' (JArr (shots @ [shot_record])) kvs) ''shots'' =
          Some (JArr (shots @ [shot_record]))"
    by (simp add: update_conv)
  with g op du st' show ?thesis
    unfolding ud' shot_record_def id by blast
qed


text \<open>
  A write that fails after \<^verbatim>\<open>open\<close> has truncated the file: the exception is raised and
  the ledger is gone.
\<close>

lemma save_shot_dump_fails:
  assumes "ledger_ok st user_id"
    and "open_error st (user_file user_id) = None"
    and "\<forall>d. dump_result st (user_file user_id) d = Inl err"
  shows "fst (save_shot e user_id m rd st) = Inl err
         \<and> get_user_shots user_id (snd (save_shot e user_id m rd st)) = JArr []"
proof -
  define shot_record where "shot_record =
    JObj [(''id'', JStr (take 12 (md5_hexdigest e (user_id @ isoformat (now_id rd))))),
          (''user_id'', JStr user_id), (''timestamp'', JStr (isoformat (now_stamp rd))),
          (''data'', m)]"
  define user_data where "user_data =
    (case files st (user_file user_id) of
       Some (Document d) \<Rightarrow> d
     | _ \<Rightarrow> JObj [(''shots'', JArr [])])"
  have "has_shots user_data"
    using assms(1) unfolding user_data_def ledger_ok_def
    by (auto split: option.splits file_content.splits)
  from append_shot_has_shots [OF this, of shot_record] obtain d' where
    "append_shot user_data shot_record = Inr d'"
    by blast
  then have "save_shot e user_id m rd st =
               (Inl err, st\<lparr>files := (files st)(user_file user_id \<mapsto> NotJson)\<rparr>)"
    unfolding save_shot_def Let_def shot_record_def [symmetric] user_data_def [symmetric]
    using assms(2,3) by simp
  then show ?thesis
    by (simp add: get_user_shots_def)
qed




lemma shots_store_with: "get_user_shots ''u1'' (store_with m) = JArr [stored_record m]"
  by (simp add: get_user_shots_def store_with_def user_file_def sample_store_def)


text \<open>
  A write that fails after \<^verbatim>\<open>open(user_file, 'w')\<close> has returned: the call raises, and
  the shots that were in the file are gone.
\<close>

lemma full_disk_loses_ledger:
  "fst (save_shot e ''u1'' m rd (full_disk m0)) = Inl (OSError ''[Errno 28] No space left on device'')
   \<and> get_user_shots ''u1'' (full_disk m0) = JArr [stored_record m0]
   \<and> get_user_shots ''u1'' (snd (save_shot e ''u1'' m rd (full_disk m0))) = JArr []"
proof -
  have "ledger_ok (full_disk m0) ''u1''"
    "open_error (full_disk m0) (user_file ''u1'') = None"
    "\<forall>d. dump_result (full_disk m0) (user_file ''u1'') d =
           Inl (OSError ''[Errno 28] No space left on device'')"
    by (simp_all add: full_disk_def ledger_ok_def store_with_def sample_store_def user_file_def)
  from save_shot_dump_fails [OF this] show ?thesis
    by (simp add: get_user_shots_def full_disk_def store_with_def sample_store_def
        user_file_def)
qed



subsection \<open>ResponseParser: the match and its decoding\<close>

lemma dropWhile_neq_head: "dropWhile (\<lambda>c. c \<noteq> x) xs = b # rest \<Longrightarrow> b = x"
  by (induction xs) (auto split: if_splits)

lemma dropWhile_neq_mem: "x \<in> set xs \<Longrightarrow> \<exists>rest. dropWhile (\<lambda>c. c \<noteq> x) xs = x # rest"
  by (induction xs) auto

lemma takeWhile_neq_notin: "x \<notin> set (takeWhile (\<lambda>c. c \<noteq> x) xs)"
  by (auto dest: set_takeWhileD)

lemma dropWhile_neq_skip: "x \<notin> set pre \<Longrightarrow> dropWhile (\<lambda>c. c \<noteq> x) (pre @ x # suf) = x # suf"
  by (induction pre) auto

lemma dropWhile_neq_later:
  "y \<in> set suf \<Longrightarrow> \<exists>rest. dropWhile (\<lambda>c. c \<noteq> x) (pre @ x # suf) = x # rest \<and> y \<in> set rest"
  by (induction pre) auto

lemma json_match_decompose:
  assumes t: "s = pre @ CHR ''{'' # mid @ CHR ''}'' # post"
    and pre: "CHR ''{'' \<notin> set pre" and post: "CHR ''}'' \<notin> set post"
  shows "json_match s = Some (CHR ''{'' # mid @ [CHR ''}''])"
proof -
  have d: "dropWhile (\<lambda>c. c \<noteq> CHR ''{'') s = CHR ''{'' # mid @ CHR ''}'' # post"
    unfolding t using pre by (rule dropWhile_neq_skip)
  have "CHR ''}'' \<notin> set (rev post)" using post by simp
  then have "dropWhile (\<lambda>c. c \<noteq> CHR ''}'') (rev post @ CHR ''}'' # rev mid) = CHR ''}'' # rev mid"
    by (rule dropWhile_neq_skip)
  then show ?thesis
    by (simp add: json_match_def d)
qed

lemma json_match_Some:
  assumes "json_match s = Some m"
  shows "\<exists>pre mid post. s = pre @ m @ post \<and> m = CHR ''{'' # mid @ [CHR ''}'']
           \<and> CHR ''{'' \<notin> set pre \<and> CHR ''}'' \<notin> set post"
proof -
  obtain b rest where d: "dropWhile (\<lambda>c. c \<noteq> CHR ''{'') s = b # rest"
    and br: "CHR ''}'' \<in> set rest"
    and m: "m = b # rev (dropWhile (\<lambda>c. c \<noteq> CHR ''}'') (rev rest))"
    using assms by (auto simp: json_match_def split: list.splits if_splits)
  have b: "b = CHR ''{''"
    using d by (rule dropWhile_neq_head)
  define pre where "pre = takeWhile (\<lambda>c. c \<noteq> CHR ''{'') s"
  define post where "post = rev (takeWhile (\<lambda>c. c \<noteq> CHR ''}'') (rev rest))"
  have "CHR ''}'' \<in> set (rev rest)" using br by simp
  then obtain tl where dr: "dropWhile (\<lambda>c. c \<noteq> CHR ''}'') (rev rest) = CHR ''}'' # tl"
    using dropWhile_neq_mem by fastforce
  have "rev rest = rev post @ CHR ''}'' # tl"
    unfolding post_def rev_rev_ident dr [symmetric] by simp
  then have "rev (rev rest) = rev (rev post @ CHR ''}'' # tl)" by (rule arg_cong)
  then have rest: "rest = rev tl @ CHR ''}'' # post" by simp
  have "s = pre @ dropWhile (\<lambda>c. c \<noteq> CHR ''{'') s"
    unfolding pre_def by simp
  then have s: "s = pre @ CHR ''{'' # rev tl @ CHR ''}'' # post"
    using d b rest by simp
  have m': "m = CHR ''{'' # rev tl @ [CHR ''}'']"
    using m b dr by simp
  have p1: "CHR ''{'' \<notin> set pre"
    unfolding pre_def by (rule takeWhile_neq_notin)
  have "CHR ''}'' \<notin> set (takeWhile (\<lambda>c. c \<noteq> CHR ''}'') (rev rest))"
    by (rule takeWhile_neq_notin)
  then have p2: "CHR ''}'' \<notin> set post"
    unfolding post_def by simp
  have "s = pre @ m @ post" using s m' by simp
  with m' p1 p2 show ?thesis by blast
qed

lemma json_match_None:
  "json_match s = None \<longleftrightarrow> \<not> (\<exists>pre mid post. s = pre @ CHR ''{'' # mid @ CHR ''}'' # post)"
proof
  assume n: "json_match s = None"
  show "\<not> (\<exists>pre mid post. s = pre @ CHR ''{'' # mid @ CHR ''}'' # post)"
  proof
    assume "\<exists>pre mid post. s = pre @ CHR ''{'' # mid @ CHR ''}'' # post"
    then obtain pre mid post where t: "s = pre @ CHR ''{'' # mid @ CHR ''}'' # post" by blast
    have "CHR ''}'' \<in> set (mid @ CHR ''}'' # post)" by simp
    then obtain rest where "dropWhile (\<lambda>c. c \<noteq> CHR ''{'') s = CHR ''{'' # rest"
      and "CHR ''}'' \<in> set rest"
      unfolding t using dropWhile_neq_later by fastforce
    then show False using n by (simp add: json_match_def)
  qed
next
  assume a: "\<not> (\<exists>pre mid post. s = pre @ CHR ''{'' # mid @ CHR ''}'' # post)"
  show "json_match s = None"
  proof (cases "json_match s")
    case None then show ?thesis .
  next
    case (Some m)
    from json_match_Some [OF Some] obtain pre mid post where
      "s = pre @ m @ post" "m = CHR ''{'' # mid @ [CHR ''}'']" by blast
    then have "s = pre @ CHR ''{'' # mid @ CHR ''}'' # post" by simp
    with a show ?thesis by blast
  qed
qed


text \<open>
  Claim C6, as the code has it. The match is greedy: it runs from the first opening brace
  of the text to the last closing brace, whatever lies between; there is no match exactly
  when no opening brace is followed by a closing one. The method gives \<open>None\<close> both when
  there is no match and when \<^verbatim>\<open>json.loads\<close> rejects the match: the two failures are not
  told apart, and no reason is reported.
\<close>

theorem json_match_greedy:
  "(json_match s = Some m \<longleftrightarrow>
      (\<exists>pre mid post. s = pre @ m @ post \<and> m = CHR ''{'' # mid @ [CHR ''}'']
         \<and> CHR ''{'' \<notin> set pre \<and> CHR ''}'' \<notin> set post))
   \<and> (json_match s = None \<longleftrightarrow>
        \<not> (\<exists>pre mid post. s = pre @ CHR ''{'' # mid @ CHR ''}'' # post))
   \<and> (extract_json e s = None \<longleftrightarrow>
        json_match s = None \<or> (\<exists>m. json_match s = Some m \<and> json_loads e m = None))"
proof (intro conjI)
  show "json_match s = Some m \<longleftrightarrow>
      (\<exists>pre mid post. s = pre @ m @ post \<and> m = CHR ''{'' # mid @ [CHR ''}'']
         \<and> CHR ''{'' \<notin> set pre \<and> CHR ''}'' \<notin> set post)"
  proof
    assume "json_match s = Some m"
    then show "\<exists>pre mid post. s = pre @ m @ post \<and> m = CHR ''{'' # mid @ [CHR ''}'']
         \<and> CHR ''{'' \<notin> set pre \<and> CHR ''}'' \<notin> set post"
      by (rule json_match_Some)
  next
    assume "\<exists>pre mid post. s = pre @ m @ post \<and> m = CHR ''{'' # mid @ [CHR ''}'']
         \<and> CHR ''{'' \<notin> set pre \<and> CHR ''}'' \<notin> set post"
    then obtain pre mid post where s: "s = pre @ m @ post"
      and m: "m = CHR ''{'' # mid @ [CHR ''}'']"
      and p: "CHR ''{'' \<notin> set pre" "CHR ''}'' \<notin> set post"
      by blast
    from s m have "s = pre @ CHR ''{'' # mid @ CHR ''}'' # post" by simp
    from json_match_decompose [OF this p] m show "json_match s = Some m" by simp
  qed
next
  show "json_match s = None \<longleftrightarrow>
        \<not> (\<exists>pre mid post. s = pre @ CHR ''{'' # mid @ CHR ''}'' # post)"
    by (rule json_match_None)
next
  show "extract_json e s = None \<longleftrightarrow>
        json_match s = None \<or> (\<exists>m. json_match s = Some m \<and> json_loads e m = None)"
    by (cases "json_match s") (simp_all add: extract_json_def)
qed

theorem json_match_greedy_witness:
  \<open>json_match wrapped_object = Some ''{"ball_speed": 150}''
   \<and> extract_json (sample_env (RequestRaised, 2) (RequestRaised, 2)) wrapped_object
       = Some (JObj [(''ball_speed'', JInt 150)])\<close>
proof -
  note t = json_match_greedy [of wrapped_object \<open>''{"ball_speed": 150}''\<close>
      "sample_env (RequestRaised, 2) (RequestRaised, 2)"]
  have "wrapped_object = ''Here you go: '' @ ''{\"ball_speed\": 150}'' @ '' Enjoy!''
      \<and> ''{\"ball_speed\": 150}'' = CHR ''{'' # ''\"ball_speed\": 150'' @ [CHR ''}'']
      \<and> CHR ''{'' \<notin> set ''Here you go: '' \<and> CHR ''}'' \<notin> set '' Enjoy!''"
    by (simp add: wrapped_object_def)
  then have "\<exists>pre mid post. wrapped_object = pre @ ''{\"ball_speed\": 150}'' @ post
      \<and> ''{\"ball_speed\": 150}'' = CHR ''{'' # mid @ [CHR ''}'']
      \<and> CHR ''{'' \<notin> set pre \<and> CHR ''}'' \<notin> set post"
    by (intro exI)
  with t have m: \<open>json_match wrapped_object = Some ''{"ball_speed": 150}''\<close>
    by (simp only:)
  then show ?thesis
    by (simp add: extract_json_def sample_env_def sample_loads_def)
qed

text \<open>
  Claim C6 as stated fails on a text with two objects: the first balanced object is
  \<^verbatim>\<open>{"ball_speed": 150}\<close>, which \<^verbatim>\<open>json.loads\<close> accepts, but the match is the whole
  text, which it rejects with "Extra data"; the result is \<open>None\<close>, as it is for a text
  without braces.
\<close>

theorem first_object_counterexample:
  \<open>json_match two_objects = Some two_objects
   \<and> first_balanced_object two_objects = Some ''{"ball_speed": 150}''
   \<and> json_match two_objects \<noteq> first_balanced_object two_objects
   \<and> extract_json (sample_env (RequestRaised, 2) (RequestRaised, 2)) two_objects = None
   \<and> extract_json (sample_env (RequestRaised, 2) (RequestRaised, 2)) ''no braces here'' = None\<close>
  by (simp add: two_objects_def json_match_def extract_json_def sample_env_def sample_loads_def)

subsection \<open>ExtractionOrchestrator: \<^verbatim>\<open>process_image\<close>\<close>

lemma gemini_posts:
  "posts (snd (extract_with_gemini e cfg img n)) =
     posts n @ (if key_set (GEMINI_API_KEY cfg) then [(''gemini'', RESPONSE_TIMEOUT cfg)] else [])"
  by (simp add: extract_with_gemini_def key_set_def Let_def split: option.splits prod.splits)

lemma openai_posts:
  "posts (snd (extract_with_openai e cfg img n)) =
     posts n @ (if key_set (OPENAI_API_KEY cfg) then [(''openai'', RESPONSE_TIMEOUT cfg)] else [])"
  by (simp add: extract_with_openai_def key_set_def Let_def split: option.splits prod.splits)

lemma gemini_needs_key:
  "truthy_opt (fst (extract_with_gemini e cfg img n)) \<Longrightarrow> key_set (GEMINI_API_KEY cfg)"
  by (auto simp: extract_with_gemini_def key_set_def truthy_opt_def split: option.splits if_splits)

lemma process_image_gemini:
  assumes "truthy_opt (fst (extract_with_gemini e cfg img n))"
  shows "process_image e cfg img n =
           ((fst (extract_with_gemini e cfg img n),
             ''gemini ('' @ format_2f e (clock (snd (extract_with_gemini e cfg img n)) - clock n)
               @ ''s)''),
            snd (extract_with_gemini e cfg img n))"
  using assms by (simp add: process_image_def Let_def case_prod_beta)

lemma process_image_fallback:
  assumes "\<not> truthy_opt (fst (extract_with_gemini e cfg img n))"
  shows "process_image e cfg img n =
           (let n1 = snd (extract_with_gemini e cfg img n);
                (result2, n2) = extract_with_openai e cfg img n1
            in (if truthy_opt result2
                then (result2, ''openai ('' @ format_2f e (clock n2 - clock n) @ ''s)'')
                else (None, ''failed''),
                n2))"
  using assms by (simp add: process_image_def Let_def case_prod_beta)

lemma process_image_posts:
  "posts (snd (process_image e cfg img n)) =
     posts n
     @ (if key_set (GEMINI_API_KEY cfg) then [(''gemini'', RESPONSE_TIMEOUT cfg)] else [])
     @ (if \<not> truthy_opt (fst (extract_with_gemini e cfg img n)) \<and> key_set (OPENAI_API_KEY cfg)
        then [(''openai'', RESPONSE_TIMEOUT cfg)] else [])"
proof (cases "truthy_opt (fst (extract_with_gemini e cfg img n))")
  case True
  then show ?thesis
    by (simp add: process_image_gemini gemini_posts)
next
  case False
  then show ?thesis
    by (simp add: process_image_fallback gemini_posts openai_posts Let_def case_prod_beta)
qed


lemmas sample_defs = sample_loads_def sample_md5_def sample_2f_def sample_env_def gemini_reply_def
  openai_reply_def sample_cfg_def sample_now_def sample_readings_def sample_session_def
  sample_request_def sample_net_def sample_store_def read_only_store_def CONFIG_def

lemmas provider_defs = extract_with_gemini_def extract_with_openai_def read_response_def
  gemini_text_def openai_text_def extract_json_def json_match_def Let_def

lemma gemini_good:
  "extract_with_gemini good_env sample_cfg ''c2hvdA=='' sample_net =
     (Some (JObj [(''ball_speed'', JInt 150)]),
      \<lparr>clock = 2001 / 2, posts = [(''gemini'', 2)]\<rparr>)"
  by (simp add: good_env_def sample_defs provider_defs)

lemma gemini_slow:
  "extract_with_gemini slow_gemini_env sample_cfg ''c2hvdA=='' sample_net =
     (None, \<lparr>clock = 1002, posts = [(''gemini'', 2)]\<rparr>)"
  by (simp add: slow_gemini_env_def sample_defs provider_defs)

lemma openai_after_slow:
  "extract_with_openai slow_gemini_env sample_cfg ''c2hvdA==''
       \<lparr>clock = 1002, posts = [(''gemini'', 2)]\<rparr> =
     (Some (JObj [(''ball_speed'', JInt 150)]),
      \<lparr>clock = 2005 / 2, posts = [(''gemini'', 2), (''openai'', 2)]\<rparr>)"
  by (simp add: slow_gemini_env_def sample_defs provider_defs)

lemma gemini_empty:
  "extract_with_gemini empty_object_env sample_cfg ''c2hvdA=='' sample_net =
     (Some (JObj []), \<lparr>clock = 2001 / 2, posts = [(''gemini'', 2)]\<rparr>)"
  by (simp add: empty_object_env_def sample_defs provider_defs)

lemma openai_after_empty:
  "extract_with_openai empty_object_env sample_cfg ''c2hvdA==''
       \<lparr>clock = 2001 / 2, posts = [(''gemini'', 2)]\<rparr> =
     (Some (JObj [(''ball_speed'', JInt 150)]),
      \<lparr>clock = 5004 / 5, posts = [(''gemini'', 2), (''openai'', 2)]\<rparr>)"
  by (simp add: empty_object_env_def sample_defs provider_defs)

lemma gemini_extra:
  "extract_with_gemini extra_key_env sample_cfg ''c2hvdA=='' sample_net =
     (Some (JObj [(''ball_speed'', JInt 150), (''club'', JStr ''7i'')]),
      \<lparr>clock = 2001 / 2, posts = [(''gemini'', 2)]\<rparr>)"
  by (simp add: extra_key_env_def sample_defs provider_defs)

lemma format_slow: "format_2f slow_gemini_env (5 / 2) = ''2.50''"
  by (simp add: slow_gemini_env_def sample_env_def sample_2f_def)

lemma format_good: "format_2f good_env (1 / 2) = ''0.50''"
  by (simp add: good_env_def sample_env_def sample_2f_def)

lemma format_empty: "format_2f empty_object_env (4 / 5) = ''0.80''"
  by (simp add: empty_object_env_def sample_env_def sample_2f_def)

lemma all_null_truthy: "truthy (JObj (map (\<lambda>k. (k, JNull)) metric_keys))"
  by (simp add: metric_keys_def)

text \<open>
  Claim C2, as the code has it. Every call of \<^verbatim>\<open>requests.post\<close> that \<^verbatim>\<open>process_image\<close>
  makes is given the same timeout, \<^verbatim>\<open>CONFIG['RESPONSE_TIMEOUT']\<close>, which is 2 seconds,
  whatever time has passed since the request started. Gemini is called whenever its key
  is configured, and OpenAI whenever Gemini gave no usable result and its own key is
  configured: a provider is passed over for a missing key only, never for the time
  already spent.
\<close>

theorem provider_timeout_fixed:
  "posts (snd (process_image e cfg img n)) =
     posts n
     @ (if key_set (GEMINI_API_KEY cfg) then [(''gemini'', RESPONSE_TIMEOUT cfg)] else [])
     @ (if \<not> truthy_opt (fst (extract_with_gemini e cfg img n)) \<and> key_set (OPENAI_API_KEY cfg)
        then [(''openai'', RESPONSE_TIMEOUT cfg)] else [])
   \<and> RESPONSE_TIMEOUT (CONFIG openai_key gemini_key) = 2"
  by (simp add: process_image_posts CONFIG_def)

theorem provider_timeout_fixed_witness:
  "posts (snd (process_image good_env sample_cfg ''c2hvdA=='' sample_net)) = [(''gemini'', 2)]"
proof -
  note t = provider_timeout_fixed [of good_env sample_cfg "''c2hvdA==''" sample_net
      "Some ''sk-test''" "Some ''AIza-test''", THEN conjunct1]
  have k: "key_set (GEMINI_API_KEY sample_cfg)" "RESPONSE_TIMEOUT sample_cfg = 2"
    "posts sample_net = []"
    by (simp_all add: sample_cfg_def CONFIG_def key_set_def sample_net_def)
  have g: "truthy_opt (fst (extract_with_gemini good_env sample_cfg ''c2hvdA=='' sample_net))"
    by (simp add: gemini_good truthy_opt_def)
  show ?thesis
    unfolding t by (simp add: k g)
qed

text \<open>
  Claim C2 as stated fails when Gemini uses the whole budget: the call to Gemini raises
  after 2 seconds, so the time left of a budget of 2 seconds is zero when it is OpenAI's
  turn; OpenAI is called all the same, with a timeout of 2 seconds, and its answer comes
  back 2.5 seconds after the start.
\<close>

theorem late_provider_counterexample:
  "remaining_budget sample_cfg (clock sample_net)
       (clock (snd (extract_with_gemini slow_gemini_env sample_cfg ''c2hvdA=='' sample_net))) = 0
   \<and> process_image slow_gemini_env sample_cfg ''c2hvdA=='' sample_net =
       ((Some (JObj [(''ball_speed'', JInt 150)]), ''openai (2.50s)''),
        \<lparr>clock = 2005 / 2, posts = [(''gemini'', 2), (''openai'', 2)]\<rparr>)"
proof -
  have c: "clock sample_net = 1000" "RESPONSE_TIMEOUT sample_cfg = 2"
    by (simp_all add: sample_net_def sample_cfg_def CONFIG_def)
  have "\<not> truthy_opt (fst (extract_with_gemini slow_gemini_env sample_cfg ''c2hvdA=='' sample_net))"
    by (simp add: gemini_slow truthy_opt_def)
  then have "process_image slow_gemini_env sample_cfg ''c2hvdA=='' sample_net =
       ((Some (JObj [(''ball_speed'', JInt 150)]), ''openai (2.50s)''),
        \<lparr>clock = 2005 / 2, posts = [(''gemini'', 2), (''openai'', 2)]\<rparr>)"
    by (simp add: process_image_fallback gemini_slow openai_after_slow truthy_opt_def c
        format_slow)
  then show ?thesis
    by (simp add: remaining_budget_def gemini_slow c)
qed


text \<open>
  Claim C5, as the code has it. When Gemini's result passes Python's truth test (it is not
  \<open>None\<close> and not an empty object; an object with all seven fields null passes), it is
  returned with a label that starts with \<open>gemini\<close>, and the only call made is the one to
  Gemini. Otherwise \<^verbatim>\<open>extract_with_openai\<close> runs next, and the request fails only if its
  result does not pass the truth test either; with an OpenAI key configured the call to
  OpenAI is made.
\<close>

theorem provider_priority:
  "(truthy_opt (fst (extract_with_gemini e cfg img n)) \<longrightarrow>
      process_image e cfg img n =
        ((fst (extract_with_gemini e cfg img n),
          ''gemini ('' @ format_2f e (clock (snd (extract_with_gemini e cfg img n)) - clock n)
            @ ''s)''),
         snd (extract_with_gemini e cfg img n))
      \<and> posts (snd (process_image e cfg img n)) =
          posts n @ [(''gemini'', RESPONSE_TIMEOUT cfg)])
   \<and> (\<not> truthy_opt (fst (extract_with_gemini e cfg img n)) \<longrightarrow>
        process_image e cfg img n =
          (let n1 = snd (extract_with_gemini e cfg img n);
               (result2, n2) = extract_with_openai e cfg img n1
           in (if truthy_opt result2
               then (result2, ''openai ('' @ format_2f e (clock n2 - clock n) @ ''s)'')
               else (None, ''failed''),
               n2))
        \<and> (key_set (OPENAI_API_KEY cfg) \<longrightarrow>
             (''openai'', RESPONSE_TIMEOUT cfg) \<in> set (posts (snd (process_image e cfg img n)))))
   \<and> truthy (JObj (map (\<lambda>k. (k, JNull)) metric_keys))"
proof (intro conjI impI)
  assume g: "truthy_opt (fst (extract_with_gemini e cfg img n))"
  then show "process_image e cfg img n =
        ((fst (extract_with_gemini e cfg img n),
          ''gemini ('' @ format_2f e (clock (snd (extract_with_gemini e cfg img n)) - clock n)
            @ ''s)''),
         snd (extract_with_gemini e cfg img n))"
    by (rule process_image_gemini)
  from g gemini_needs_key [OF g]
  show "posts (snd (process_image e cfg img n)) = posts n @ [(''gemini'', RESPONSE_TIMEOUT cfg)]"
    by (simp add: process_image_posts)
next
  assume g: "\<not> truthy_opt (fst (extract_with_gemini e cfg img n))"
  then show "process_image e cfg img n =
          (let n1 = snd (extract_with_gemini e cfg img n);
               (result2, n2) = extract_with_openai e cfg img n1
           in (if truthy_opt result2
               then (result2, ''openai ('' @ format_2f e (clock n2 - clock n) @ ''s)'')
               else (None, ''failed''),
               n2))"
    by (rule process_image_fallback)
  assume "key_set (OPENAI_API_KEY cfg)"
  with g show "(''openai'', RESPONSE_TIMEOUT cfg) \<in> set (posts (snd (process_image e cfg img n)))"
    by (simp add: process_image_posts)
next
  show "truthy (JObj (map (\<lambda>k. (k, JNull)) metric_keys))"
    by (rule all_null_truthy)
qed

theorem provider_priority_witness:
  "process_image good_env sample_cfg ''c2hvdA=='' sample_net =
     ((Some (JObj [(''ball_speed'', JInt 150)]), ''gemini (0.50s)''),
      \<lparr>clock = 2001 / 2, posts = [(''gemini'', 2)]\<rparr>)
   \<and> (''openai'', 2) \<in> set (posts (snd (process_image slow_gemini_env sample_cfg ''c2hvdA==''
                                        sample_net)))"
proof -
  note t1 = provider_priority [of good_env sample_cfg "''c2hvdA==''" sample_net]
  note t2 = provider_priority [of slow_gemini_env sample_cfg "''c2hvdA==''" sample_net]
  have c: "clock sample_net = 1000" "RESPONSE_TIMEOUT sample_cfg = 2"
    "key_set (OPENAI_API_KEY sample_cfg)"
    by (simp_all add: sample_net_def sample_cfg_def CONFIG_def key_set_def)
  have g1: "truthy_opt (fst (extract_with_gemini good_env sample_cfg ''c2hvdA=='' sample_net))"
    by (simp add: gemini_good truthy_opt_def)
  have g2: "\<not> truthy_opt (fst (extract_with_gemini slow_gemini_env sample_cfg ''c2hvdA==''
                              sample_net))"
    by (simp add: gemini_slow truthy_opt_def)
  from t1 [THEN conjunct1, THEN mp, OF g1, THEN conjunct1]
  have a: "process_image good_env sample_cfg ''c2hvdA=='' sample_net =
     ((Some (JObj [(''ball_speed'', JInt 150)]), ''gemini (0.50s)''),
      \<lparr>clock = 2001 / 2, posts = [(''gemini'', 2)]\<rparr>)"
    by (simp add: gemini_good c format_good)
  from t2 [THEN conjunct2, THEN conjunct1, THEN mp, OF g2, THEN conjunct2, THEN mp, OF c(3)]
  have b: "(''openai'', 2) \<in> set (posts (snd (process_image slow_gemini_env sample_cfg
                                        ''c2hvdA=='' sample_net)))"
    by (simp add: c)
  from a b show ?thesis by (rule conjI)
qed

text \<open>
  Claim C5 as stated fails on the empty object: Gemini answers \<^verbatim>\<open>{}\<close>, which
  \<^verbatim>\<open>json.loads\<close> parses, but an empty dictionary is false for \<^verbatim>\<open>if result:\<close>, so OpenAI
  is called and its result is the one returned.
\<close>

theorem empty_object_counterexample:
  "fst (extract_with_gemini empty_object_env sample_cfg ''c2hvdA=='' sample_net)
     = Some (JObj [])
   \<and> process_image empty_object_env sample_cfg ''c2hvdA=='' sample_net =
       ((Some (JObj [(''ball_speed'', JInt 150)]), ''openai (0.80s)''),
        \<lparr>clock = 5004 / 5, posts = [(''gemini'', 2), (''openai'', 2)]\<rparr>)"
proof -
  have c: "clock sample_net = 1000"
    by (simp add: sample_net_def)
  have "\<not> truthy_opt (fst (extract_with_gemini empty_object_env sample_cfg ''c2hvdA==''
                           sample_net))"
    by (simp add: gemini_empty truthy_opt_def)
  then have "process_image empty_object_env sample_cfg ''c2hvdA=='' sample_net =
       ((Some (JObj [(''ball_speed'', JInt 150)]), ''openai (0.80s)''),
        \<lparr>clock = 5004 / 5, posts = [(''gemini'', 2), (''openai'', 2)]\<rparr>)"
    by (simp add: process_image_fallback gemini_empty openai_after_empty truthy_opt_def c
        format_empty)
  then show ?thesis
    by (simp add: gemini_empty)
qed

subsection \<open>The route \<^verbatim>\<open>/extract\<close> under its decorator\<close>

lemma read_response_Some:
  assumes "read_response e text_of r = Some d"
  shows "\<exists>reply text m. r = HttpResponse 200 (Some reply) \<and> text_of reply = Some text
           \<and> json_match text = Some m \<and> json_loads e m = Some d"
  using assms
  by (auto simp: read_response_def extract_json_def
      split: http_result.splits option.splits if_splits)

lemma gemini_document:
  assumes "fst (extract_with_gemini e cfg img n) = Some d"
  shows "\<exists>key reply text m.
           GEMINI_API_KEY cfg = Some key
           \<and> fst (gemini_post e key img (RESPONSE_TIMEOUT cfg)) = HttpResponse 200 (Some reply)
           \<and> gemini_text reply = Some text
           \<and> json_match text = Some m \<and> json_loads e m = Some d"
proof (cases "GEMINI_API_KEY cfg")
  case None
  with assms show ?thesis by (simp add: extract_with_gemini_def)
next
  case (Some key)
  with assms have
    "read_response e gemini_text (fst (gemini_post e key img (RESPONSE_TIMEOUT cfg))) = Some d"
    by (simp add: extract_with_gemini_def Let_def case_prod_beta split: if_splits)
  from read_response_Some [OF this] Some show ?thesis by blast
qed

lemma openai_document:
  assumes "fst (extract_with_openai e cfg img n) = Some d"
  shows "\<exists>key reply text m.
           OPENAI_API_KEY cfg = Some key
           \<and> fst (openai_post e key img (RESPONSE_TIMEOUT cfg)) = HttpResponse 200 (Some reply)
           \<and> openai_text reply = Some text
           \<and> json_match text = Some m \<and> json_loads e m = Some d"
proof (cases "OPENAI_API_KEY cfg")
  case None
  with assms show ?thesis by (simp add: extract_with_openai_def)
next
  case (Some key)
  with assms have
    "read_response e openai_text (fst (openai_post e key img (RESPONSE_TIMEOUT cfg))) = Some d"
    by (simp add: extract_with_openai_def Let_def case_prod_beta split: if_splits)
  from read_response_Some [OF this] Some show ?thesis by blast
qed

lemma process_image_document:
  assumes "fst (fst (process_image e cfg img n)) = Some d"
  shows "(\<exists>key reply text m.
            GEMINI_API_KEY cfg = Some key
            \<and> fst (gemini_post e key img (RESPONSE_TIMEOUT cfg)) = HttpResponse 200 (Some reply)
            \<and> gemini_text reply = Some text
            \<and> json_match text = Some m \<and> json_loads e m = Some d)
         \<or> (\<exists>key reply text m.
            OPENAI_API_KEY cfg = Some key
            \<and> fst (openai_post e key img (RESPONSE_TIMEOUT cfg)) = HttpResponse 200 (Some reply)
            \<and> openai_text reply = Some text
            \<and> json_match text = Some m \<and> json_loads e m = Some d)"
proof (cases "truthy_opt (fst (extract_with_gemini e cfg img n))")
  case True
  with assms have "fst (extract_with_gemini e cfg img n) = Some d"
    by (simp add: process_image_gemini)
  from gemini_document [OF this] show ?thesis by (rule disjI1)
next
  case False
  with assms have "fst (extract_with_openai e cfg img (snd (extract_with_gemini e cfg img n)))
      = Some d"
    by (simp add: process_image_fallback Let_def case_prod_beta split: if_splits)
  from openai_document [OF this] show ?thesis by (rule disjI2)
qed

lemma extract_shot_data_Bare:
  assumes "extract_shot_data e cfg sess req rd (n, st) = (Bare body, n', st')"
  shows "\<exists>filename image_bytes d p.
           image req = Some (filename, image_bytes) \<and> filename \<noteq> []
           \<and> process_image e cfg (b64encode e image_bytes) n = ((Some d, p), n')
           \<and> truthy d
           \<and> map_of body ''data'' = Some d
           \<and> map_of body ''success'' = Some (JBool True)
           \<and> map_of body ''processor'' = Some (JStr p)
           \<and> map_of body ''rate_limit'' = None
           \<and> (case sess ''user_id'' of
                 None \<Rightarrow> st' = st
               | Some user_id \<Rightarrow> \<exists>shot_id. save_shot e user_id d rd st = (Inr shot_id, st'))"
  using assms
  by (auto simp: extract_shot_data_def error_response_def Let_def
      split: option.splits prod.splits if_splits sum.splits)

lemma extract_shot_data_WithStatus:
  assumes "extract_shot_data e cfg sess req rd (n, st) = (WithStatus body status, n', st')"
  shows "(status = 400 \<or> status = 422 \<or> status = 500)
           \<and> (\<exists>msg. body = [(''error'', JStr msg)])"
  using assms
  by (auto simp: extract_shot_data_def error_response_def Let_def
      split: option.splits prod.splits if_splits sum.splits)

lemma extract_shot_data_save_fails:
  assumes "image req = Some (filename, image_bytes)" "filename \<noteq> []"
    and "process_image e cfg (b64encode e image_bytes) n = ((Some d, p), n')"
    and "truthy d" and "sess ''user_id'' = Some user_id"
    and "save_shot e user_id d rd st = (Inl err, st')"
  shows "extract_shot_data e cfg sess req rd (n, st) =
           (WithStatus [(''error'', JStr (exc_str e err))] 500, n', st')"
  using assms by (simp add: extract_shot_data_def error_response_def)

lemma check_quota_admits:
  assumes "quota_key cfg sess req (now_key rd) = (key, limit)"
    and "(case redis_get r key of None \<Rightarrow> 0 | Some v \<Rightarrow> v) = current"
    and "current < limit"
  shows "check_quota cfg sess req rd r =
           (Inr (Admitted current limit), redis_expire (redis_incr r key) key 86400)"
  using assms by (simp add: check_quota_def)

lemma check_quota_denies:
  assumes "quota_key cfg sess req (now_key rd) = (key, limit)"
    and "(case redis_get r key of None \<Rightarrow> 0 | Some v \<Rightarrow> v) \<ge> limit"
  shows "check_quota cfg sess req rd r = (denial limit (now_reset rd), r)"
  using assms by (simp add: check_quota_def)

lemma redis_count_after:
  "redis_get (redis_expire (redis_incr r key) key seconds) key =
     Some ((case redis_get r key of None \<Rightarrow> 0 | Some v \<Rightarrow> v) + 1)"
  by (simp add: redis_get_def redis_expire_def redis_incr_def split: option.splits)

lemma redis_other_keys:
  "k \<noteq> key \<Longrightarrow> redis_expire (redis_incr r key) key seconds k = r k"
  by (simp add: redis_expire_def redis_incr_def split: option.splits)

lemma rate_limit_admitted:
  assumes "check_quota cfg sess req rd r = (Inr (Admitted current limit), r')"
  shows "rate_limit f cfg sess req rd (r, s) =
           (Inr (case fst (f (r', s)) of
                   WithStatus data status \<Rightarrow>
                     WithStatus (AList.update ''rate_limit'' (rate_info current limit) data) status
                 | Bare data \<Rightarrow> Bare data),
            snd (f (r', s)))"
  using assms by (simp add: rate_limit_def case_prod_beta)

lemma extract_handler_redis:
  "fst (snd (extract_handler e cfg sess req rd (r, ns))) = r"
  by (simp add: extract_handler_def case_prod_beta)

lemma extract_handler_eq:
  "extract_handler e cfg sess req rd (r, ns) =
     (fst (extract_shot_data e cfg sess req rd ns), r, snd (extract_shot_data e cfg sess req rd ns))"
  by (simp add: extract_handler_def case_prod_beta)


lemma sample_net_clock: "clock sample_net = 1000"
  by (simp add: sample_net_def)

lemma process_good:
  "process_image good_env sample_cfg ''c2hvdA=='' sample_net =
     ((Some sample_metrics, ''gemini (0.50s)''),
      \<lparr>clock = 2001 / 2, posts = [(''gemini'', 2)]\<rparr>)"
proof -
  have "truthy_opt (fst (extract_with_gemini good_env sample_cfg ''c2hvdA=='' sample_net))"
    by (simp add: gemini_good truthy_opt_def)
  then show ?thesis
    by (simp add: process_image_gemini gemini_good format_good sample_net_clock
        sample_metrics_def)
qed

lemma format_extra: "format_2f extra_key_env (1 / 2) = ''0.50''"
  by (simp add: extra_key_env_def sample_env_def sample_2f_def)

lemma process_extra:
  "process_image extra_key_env sample_cfg ''c2hvdA=='' sample_net =
     ((Some extra_key_metrics, ''gemini (0.50s)''),
      \<lparr>clock = 2001 / 2, posts = [(''gemini'', 2)]\<rparr>)"
proof -
  have "truthy_opt (fst (extract_with_gemini extra_key_env sample_cfg ''c2hvdA=='' sample_net))"
    by (simp add: gemini_extra truthy_opt_def)
  then show ?thesis
    by (simp add: process_image_gemini gemini_extra format_extra sample_net_clock
        extra_key_metrics_def)
qed

lemma sample_request_image:
  "image sample_request = Some (''shot.jpg'', ''shot'')"
  "sample_session ''user_id'' = Some ''u1''"
  "b64encode (sample_env g1 g2) ''shot'' = ''c2hvdA==''"
  by (simp_all add: sample_request_def sample_session_def sample_env_def)

lemma handler_good:
  "extract_shot_data good_env sample_cfg sample_session sample_request sample_readings
       (sample_net, sample_store) =
     (Bare [(''success'', JBool True), (''shot_id'', JStr ''fbe5c72134e0''),
            (''data'', sample_metrics), (''processor'', JStr ''gemini (0.50s)''),
            (''saved'', JBool True)],
      \<lparr>clock = 2001 / 2, posts = [(''gemini'', 2)]\<rparr>, store_with sample_metrics)"
proof -
  have b: "b64encode good_env ''shot'' = ''c2hvdA==''"
    unfolding good_env_def by (rule sample_request_image)
  have s: "save_shot good_env ''u1'' sample_metrics sample_readings sample_store
     = (Inr ''fbe5c72134e0'', store_with sample_metrics)"
    unfolding good_env_def by (rule save_sample_any)
  have t: "truthy sample_metrics" by (simp add: sample_metrics_def)
  show ?thesis
    by (simp add: extract_shot_data_def sample_request_image b process_good s t)
qed

lemma handler_extra:
  "extract_shot_data extra_key_env sample_cfg sample_session sample_request sample_readings
       (sample_net, sample_store) =
     (Bare [(''success'', JBool True), (''shot_id'', JStr ''fbe5c72134e0''),
            (''data'', extra_key_metrics), (''processor'', JStr ''gemini (0.50s)''),
            (''saved'', JBool True)],
      \<lparr>clock = 2001 / 2, posts = [(''gemini'', 2)]\<rparr>, store_with extra_key_metrics)"
proof -
  have b: "b64encode extra_key_env ''shot'' = ''c2hvdA==''"
    unfolding extra_key_env_def by (rule sample_request_image)
  have s: "save_shot extra_key_env ''u1'' extra_key_metrics sample_readings sample_store
     = (Inr ''fbe5c72134e0'', store_with extra_key_metrics)"
    unfolding extra_key_env_def by (rule save_sample_any)
  have t: "truthy extra_key_metrics" by (simp add: extra_key_metrics_def)
  show ?thesis
    by (simp add: extract_shot_data_def sample_request_image b process_extra s t)
qed

lemma extract_route_admitted:
  assumes "quota_key cfg sess req (now_key rd) = (key, limit)"
    and "(case redis_get r key of None \<Rightarrow> 0 | Some v \<Rightarrow> v) = current"
    and "current < limit"
  shows "extract_route e cfg sess req rd (r, n, st) =
           (Inr (case fst (extract_shot_data e cfg sess req rd (n, st)) of
                   WithStatus data status \<Rightarrow>
                     WithStatus (AList.update ''rate_limit'' (rate_info current limit) data) status
                 | Bare data \<Rightarrow> Bare data),
            redis_expire (redis_incr r key) key 86400,
            snd (extract_shot_data e cfg sess req rd (n, st)))"
  unfolding extract_route_def
  by (simp add: rate_limit_admitted [OF check_quota_admits [OF assms]] extract_handler_eq)

lemma quota_key_sample:
  "quota_key sample_cfg sample_session req (now_key sample_readings) = (sample_key, 20)"
  by (simp add: quota_key_def sample_session_def sample_readings_def strftime_sample
      sample_cfg_def CONFIG_def sample_key_def)

lemma redis_empty_count:
  "(case redis_get Map.empty key of None \<Rightarrow> 0 | Some v \<Rightarrow> v) = (0::int)"
  by (simp add: redis_get_def)

lemma handler_no_image:
  "extract_shot_data e cfg sess no_image_request rd (n, st) =
     (WithStatus [(''error'', JStr ''No image provided'')] 400, n, st)"
  by (simp add: extract_shot_data_def no_image_request_def error_response_def)

lemma save_read_only_store:
  "save_shot (sample_env g1 g2) ''u1'' m sample_readings read_only_store
     = (Inl (OSError denied_message), read_only_store)"
  by (simp add: save_shot_def append_shot_def Let_def read_only_store_def user_file_def
      denied_message_def)

lemma exc_str_sample: "exc_str (sample_env g1 g2) (OSError msg) = msg"
  by (simp add: sample_env_def)

lemma handler_read_only_store:
  "extract_shot_data good_env sample_cfg sample_session sample_request sample_readings
       (sample_net, read_only_store) =
     (WithStatus [(''error'', JStr denied_message)] 500,
      \<lparr>clock = 2001 / 2, posts = [(''gemini'', 2)]\<rparr>, read_only_store)"
proof -
  have b: "b64encode good_env ''shot'' = ''c2hvdA==''"
    unfolding good_env_def by (rule sample_request_image)
  have s: "save_shot good_env ''u1'' sample_metrics sample_readings read_only_store
     = (Inl (OSError denied_message), read_only_store)"
    unfolding good_env_def by (rule save_read_only_store)
  have x: "exc_str good_env (OSError denied_message) = denied_message"
    unfolding good_env_def by (rule exc_str_sample)
  have t: "truthy sample_metrics" by (simp add: sample_metrics_def)
  show ?thesis
    by (simp add: extract_shot_data_def sample_request_image b process_good s t x
        error_response_def)
qed

text \<open>
  Claim C3, as the code has it. The metrics of a successful extraction are the document
  that \<^verbatim>\<open>json.loads\<close> returned for the match in the text of the provider's reply to this
  request (Gemini's, or OpenAI's), unchanged: the response carries that document under
  \<open>data\<close>, and for a logged-in user the record appended to the user's shots, in the
  document handed to \<^verbatim>\<open>json.dump\<close>, carries the same document. No key is dropped and no
  value is checked.
\<close>

theorem metrics_verbatim:
  assumes "extract_shot_data e cfg sess req rd (n, st) = (Bare body, n', st')"
  shows "\<exists>filename image_bytes d.
           image req = Some (filename, image_bytes)
           \<and> map_of body ''data'' = Some d
           \<and> ((\<exists>key reply text m.
                  GEMINI_API_KEY cfg = Some key
                  \<and> fst (gemini_post e key (b64encode e image_bytes) (RESPONSE_TIMEOUT cfg))
                      = HttpResponse 200 (Some reply)
                  \<and> gemini_text reply = Some text
                  \<and> json_match text = Some m \<and> json_loads e m = Some d)
              \<or> (\<exists>key reply text m.
                  OPENAI_API_KEY cfg = Some key
                  \<and> fst (openai_post e key (b64encode e image_bytes) (RESPONSE_TIMEOUT cfg))
                      = HttpResponse 200 (Some reply)
                  \<and> openai_text reply = Some text
                  \<and> json_match text = Some m \<and> json_loads e m = Some d))
           \<and> (case sess ''user_id'' of
                 None \<Rightarrow> st' = st
               | Some user_id \<Rightarrow>
                   \<exists>shots kvs shot_id content.
                     get_user_shots user_id st = JArr shots
                     \<and> map_of kvs ''shots'' =
                         Some (JArr (shots @ [JObj [(''id'', JStr shot_id),
                                                    (''user_id'', JStr user_id),
                                                    (''timestamp'', JStr (isoformat (now_stamp rd))),
                                                    (''data'', d)]]))
                     \<and> dump_result st (user_file user_id) (JObj kvs) = Inr content
                     \<and> st' = st\<lparr>files := (files st)(user_file user_id \<mapsto> content)\<rparr>)"
proof -
  from extract_shot_data_Bare [OF assms] obtain filename image_bytes d p where
    i: "image req = Some (filename, image_bytes)"
    and p: "process_image e cfg (b64encode e image_bytes) n = ((Some d, p), n')"
    and b: "map_of body ''data'' = Some d"
    and u: "case sess ''user_id'' of
              None \<Rightarrow> st' = st
            | Some user_id \<Rightarrow> \<exists>shot_id. save_shot e user_id d rd st = (Inr shot_id, st')"
    by blast
  from p have "fst (fst (process_image e cfg (b64encode e image_bytes) n)) = Some d"
    by simp
  note doc = process_image_document [OF this]
  have "case sess ''user_id'' of
          None \<Rightarrow> st' = st
        | Some user_id \<Rightarrow>
            \<exists>shots kvs shot_id content.
              get_user_shots user_id st = JArr shots
              \<and> map_of kvs ''shots'' =
                  Some (JArr (shots @ [JObj [(''id'', JStr shot_id),
                                             (''user_id'', JStr user_id),
                                             (''timestamp'', JStr (isoformat (now_stamp rd))),
                                             (''data'', d)]]))
              \<and> dump_result st (user_file user_id) (JObj kvs) = Inr content
              \<and> st' = st\<lparr>files := (files st)(user_file user_id \<mapsto> content)\<rparr>"
  proof (cases "sess ''user_id''")
    case None
    with u show ?thesis by simp
  next
    case (Some user_id)
    with u obtain shot_id where "save_shot e user_id d rd st = (Inr shot_id, st')"
      by auto
    from save_shot_Inr [OF this] Some show ?thesis
      by auto
  qed
  with i b doc show ?thesis by blast
qed

theorem metrics_verbatim_witness:
  "extract_shot_data good_env sample_cfg sample_session sample_request sample_readings
       (sample_net, sample_store) =
     (Bare [(''success'', JBool True), (''shot_id'', JStr ''fbe5c72134e0''),
            (''data'', sample_metrics), (''processor'', JStr ''gemini (0.50s)''),
            (''saved'', JBool True)],
      \<lparr>clock = 2001 / 2, posts = [(''gemini'', 2)]\<rparr>, store_with sample_metrics)
   \<and> (\<exists>filename image_bytes d.
           image sample_request = Some (filename, image_bytes)
           \<and> map_of [(''success'', JBool True), (''shot_id'', JStr ''fbe5c72134e0''),
            (''data'', sample_metrics), (''processor'', JStr ''gemini (0.50s)''),
            (''saved'', JBool True)] ''data'' = Some d
           \<and> ((\<exists>key reply text m.
                  GEMINI_API_KEY sample_cfg = Some key
                  \<and> fst (gemini_post good_env key (b64encode good_env image_bytes) (RESPONSE_TIMEOUT sample_cfg))
                      = HttpResponse 200 (Some reply)
                  \<and> gemini_text reply = Some text
                  \<and> json_match text = Some m \<and> json_loads good_env m = Some d)
              \<or> (\<exists>key reply text m.
                  OPENAI_API_KEY sample_cfg = Some key
                  \<and> fst (openai_post good_env key (b64encode good_env image_bytes) (RESPONSE_TIMEOUT sample_cfg))
                      = HttpResponse 200 (Some reply)
                  \<and> openai_text reply = Some text
                  \<and> json_match text = Some m \<and> json_loads good_env m = Some d))
           \<and> (case sample_session ''user_id'' of
                 None \<Rightarrow> store_with sample_metrics = sample_store
               | Some user_id \<Rightarrow>
                   \<exists>shots kvs shot_id content.
                     get_user_shots user_id sample_store = JArr shots
                     \<and> map_of kvs ''shots'' =
                         Some (JArr (shots @ [JObj [(''id'', JStr shot_id),
                                                    (''user_id'', JStr user_id),
                                                    (''timestamp'', JStr (isoformat (now_stamp sample_readings))),
                                                    (''data'', d)]]))
                     \<and> dump_result sample_store (user_file user_id) (JObj kvs) = Inr content
                     \<and> store_with sample_metrics = sample_store\<lparr>files := (files sample_store)(user_file user_id \<mapsto> content)\<rparr>))
   \<and> get_user_shots ''u1'' (store_with sample_metrics) = JArr [stored_record sample_metrics]"
  by (rule conjI [OF handler_good conjI [OF metrics_verbatim [OF handler_good]
        shots_store_with]])

text \<open>
  Claim C3 as stated fails on a document with a key outside the schema: Gemini answers
  \<^verbatim>\<open>{"ball_speed": 150, "club": "7i"}\<close>; the response and the stored record both keep
  \<open>club\<close>, which the projection onto the seven keys and \<open>units\<close> would have dropped.
\<close>

theorem unknown_key_counterexample:
  "fst (extract_shot_data extra_key_env sample_cfg sample_session sample_request sample_readings
         (sample_net, sample_store)) =
     Bare [(''success'', JBool True), (''shot_id'', JStr ''fbe5c72134e0''),
           (''data'', JObj [(''ball_speed'', JInt 150), (''club'', JStr ''7i'')]),
           (''processor'', JStr ''gemini (0.50s)''), (''saved'', JBool True)]
   \<and> get_user_shots ''u1''
         (snd (snd (extract_shot_data extra_key_env sample_cfg sample_session sample_request
                      sample_readings (sample_net, sample_store)))) =
       JArr [JObj [(''id'', JStr ''fbe5c72134e0''), (''user_id'', JStr ''u1''),
                   (''timestamp'', JStr ''2024-05-01T10:30:00.123456''),
                   (''data'', JObj [(''ball_speed'', JInt 150), (''club'', JStr ''7i'')])]]
   \<and> project_metrics [(''ball_speed'', JInt 150), (''club'', JStr ''7i'')] =
       [(''ball_speed'', JInt 150)]"
  by (simp add: handler_extra shots_store_with)
     (simp add: extra_key_metrics_def stored_record_def project_metrics_def metric_keys_def)


text \<open>
  Claim C7, as the code has it. When the extraction succeeds and \<^verbatim>\<open>save_shot\<close> then
  raises, the exception is caught by the handler's \<^verbatim>\<open>except\<close>: the response has status
  500 and a body that holds the text of the exception (and, from the decorator, the rate
  limit) and nothing else; the metrics are not in it.
\<close>

theorem storage_failure_response:
  assumes "image req = Some (filename, image_bytes)" "filename \<noteq> []"
    and "process_image e cfg (b64encode e image_bytes) n = ((Some d, p), n')"
    and "truthy d" and "sess ''user_id'' = Some user_id"
    and "save_shot e user_id d rd st = (Inl err, st')"
    and "quota_key cfg sess req (now_key rd) = (key, limit)"
    and "(case redis_get r key of None \<Rightarrow> 0 | Some v \<Rightarrow> v) = current"
    and "current < limit"
  shows "extract_shot_data e cfg sess req rd (n, st) =
           (WithStatus [(''error'', JStr (exc_str e err))] 500, n', st')
         \<and> extract_route e cfg sess req rd (r, n, st) =
             (Inr (WithStatus [(''error'', JStr (exc_str e err)),
                               (''rate_limit'', rate_info current limit)] 500),
              redis_expire (redis_incr r key) key 86400, n', st')"
proof -
  have h: "extract_shot_data e cfg sess req rd (n, st) =
           (WithStatus [(''error'', JStr (exc_str e err))] 500, n', st')"
    using assms(1-6) by (rule extract_shot_data_save_fails)
  from extract_route_admitted [OF assms(7-9), of e n st] h
  show ?thesis by simp
qed

theorem storage_failure_response_witness:
  "extract_route good_env sample_cfg sample_session sample_request sample_readings
       (Map.empty, sample_net, read_only_store) =
     (Inr (WithStatus [(''error'', JStr denied_message),
                       (''rate_limit'', rate_info 0 20)] 500),
      redis_expire (redis_incr Map.empty sample_key) sample_key 86400,
      \<lparr>clock = 2001 / 2, posts = [(''gemini'', 2)]\<rparr>, read_only_store)"
proof -
  have b: "b64encode good_env ''shot'' = ''c2hvdA==''"
    unfolding good_env_def by (rule sample_request_image)
  have p: "process_image good_env sample_cfg (b64encode good_env ''shot'') sample_net =
     ((Some sample_metrics, ''gemini (0.50s)''),
      \<lparr>clock = 2001 / 2, posts = [(''gemini'', 2)]\<rparr>)"
    unfolding b by (rule process_good)
  have s: "save_shot good_env ''u1'' sample_metrics sample_readings read_only_store
     = (Inl (OSError denied_message), read_only_store)"
    unfolding good_env_def by (rule save_read_only_store)
  have x: "exc_str good_env (OSError denied_message) = denied_message"
    unfolding good_env_def by (rule exc_str_sample)
  have t: "truthy sample_metrics" by (simp add: sample_metrics_def)
  have f: "''shot.jpg'' \<noteq> []" by simp
  have l: "(0::int) < 20" by simp
  from storage_failure_response [OF sample_request_image(1) f p t sample_request_image(2) s
      quota_key_sample redis_empty_count l, THEN conjunct2]
  show ?thesis
    unfolding x .
qed

text \<open>
  Claim C7 as stated fails when the data directory is read-only: Gemini's result is parsed,
  opening the user's file for writing raises PermissionError, and the caller gets status
  500 with the error text and the rate limit; the metrics are not in the response.
\<close>

theorem storage_failure_counterexample:
  "fst (process_image good_env sample_cfg ''c2hvdA=='' sample_net)
     = (Some (JObj [(''ball_speed'', JInt 150)]), ''gemini (0.50s)'')
   \<and> fst (extract_route good_env sample_cfg sample_session sample_request sample_readings
            (Map.empty, sample_net, read_only_store)) =
       Inr (WithStatus [(''error'', JStr denied_message),
                        (''rate_limit'',
                         JObj [(''used'', JInt 1), (''limit'', JInt 20),
                               (''remaining'', JInt 19)])] 500)"
proof -
  have l: "(0::int) < 20" by simp
  note r = extract_route_admitted [where req = sample_request and e = good_env
      and n = sample_net and st = read_only_store, OF quota_key_sample redis_empty_count l]
  show ?thesis
    unfolding r handler_read_only_store
    by (simp add: process_good sample_metrics_def rate_info_def)
qed

text \<open>
  Claim C9. For a request that the check admits (the count read is below the limit), INCR
  and EXPIRE are sent before the handler is called: the handler runs on the Redis state
  that has the counter already incremented. After the route returns, the counter is one
  above the count read and no other key has changed, whatever the handler answered
  (success, 400, 422 or 500): a failed request has used one unit of the quota and nothing
  gives it back.
\<close>

theorem quota_consumed_once:
  assumes "quota_key cfg sess req (now_key rd) = (key, limit)"
    and "(case redis_get r key of None \<Rightarrow> 0 | Some v \<Rightarrow> v) = current"
    and "current < limit"
  shows "rate_limit f cfg sess req rd (r, s) =
           (Inr (case fst (f (redis_expire (redis_incr r key) key 86400, s)) of
                   WithStatus data status \<Rightarrow>
                     WithStatus (AList.update ''rate_limit'' (rate_info current limit) data) status
                 | Bare data \<Rightarrow> Bare data),
            snd (f (redis_expire (redis_incr r key) key 86400, s)))
         \<and> fst (snd (extract_route e cfg sess req rd (r, n, st))) =
             redis_expire (redis_incr r key) key 86400
         \<and> redis_get (fst (snd (extract_route e cfg sess req rd (r, n, st)))) key =
             Some (current + 1)
         \<and> (\<forall>k. k \<noteq> key \<longrightarrow> fst (snd (extract_route e cfg sess req rd (r, n, st))) k = r k)"
proof -
  have a: "rate_limit f cfg sess req rd (r, s) =
           (Inr (case fst (f (redis_expire (redis_incr r key) key 86400, s)) of
                   WithStatus data status \<Rightarrow>
                     WithStatus (AList.update ''rate_limit'' (rate_info current limit) data) status
                 | Bare data \<Rightarrow> Bare data),
            snd (f (redis_expire (redis_incr r key) key 86400, s)))"
    by (rule rate_limit_admitted [OF check_quota_admits [OF assms]])
  have b: "fst (snd (extract_route e cfg sess req rd (r, n, st))) =
             redis_expire (redis_incr r key) key 86400"
    by (simp add: extract_route_admitted [OF assms])
  have c: "redis_get (redis_expire (redis_incr r key) key 86400) key = Some (current + 1)"
    using assms(2) by (simp add: redis_count_after)
  from a b c show ?thesis
    by (simp add: redis_other_keys)
qed

theorem quota_consumed_once_witness:
  "fst (extract_route good_env sample_cfg sample_session no_image_request sample_readings
          (Map.empty, sample_net, sample_store)) =
     Inr (WithStatus [(''error'', JStr ''No image provided''),
                      (''rate_limit'', rate_info 0 20)] 400)
   \<and> redis_get (fst (snd (extract_route good_env sample_cfg sample_session no_image_request
                             sample_readings (Map.empty, sample_net, sample_store))))
         sample_key = Some 1"
proof -
  have l: "(0::int) < 20" by simp
  note t = quota_consumed_once [where req = no_image_request and e = good_env and n = sample_net
      and st = sample_store and s = "(sample_net, sample_store)"
      and f = "extract_handler good_env sample_cfg sample_session no_image_request
                 sample_readings",
      OF quota_key_sample redis_empty_count l]
  have a: "fst (extract_route good_env sample_cfg sample_session no_image_request sample_readings
          (Map.empty, sample_net, sample_store)) =
     Inr (WithStatus [(''error'', JStr ''No image provided''),
                      (''rate_limit'', rate_info 0 20)] 400)"
    unfolding extract_route_def t [THEN conjunct1]
    by (simp add: extract_handler_eq handler_no_image)
  from t [THEN conjunct2, THEN conjunct2, THEN conjunct1]
  have b: "redis_get (fst (snd (extract_route good_env sample_cfg sample_session
                             no_image_request sample_readings
                             (Map.empty, sample_net, sample_store))))
         sample_key = Some 1"
    by simp
  from a b show ?thesis by (rule conjI)
qed

text \<open>
  Claim C10. For an admitted request, the decorator adds \<open>rate_limit\<close> to a response only
  when the handler returned a tuple. The successful extraction returns a bare response,
  which goes out unchanged and has no \<open>rate_limit\<close> field; every tuple the handler returns
  is an error with status 400, 422 or 500, and goes out with \<open>rate_limit\<close> added.
\<close>

theorem rate_limit_on_tuples_only:
  assumes "quota_key cfg sess req (now_key rd) = (key, limit)"
    and "(case redis_get r key of None \<Rightarrow> 0 | Some v \<Rightarrow> v) = current"
    and "current < limit"
  shows "case fst (extract_shot_data e cfg sess req rd (n, st)) of
           Bare data \<Rightarrow>
             fst (extract_route e cfg sess req rd (r, n, st)) = Inr (Bare data)
             \<and> map_of data ''rate_limit'' = None
             \<and> map_of data ''success'' = Some (JBool True)
         | WithStatus data status \<Rightarrow>
             fst (extract_route e cfg sess req rd (r, n, st)) =
               Inr (WithStatus (data @ [(''rate_limit'', rate_info current limit)]) status)
             \<and> (status = 400 \<or> status = 422 \<or> status = 500)
             \<and> map_of data ''success'' = None"
proof (cases "extract_shot_data e cfg sess req rd (n, st)")
  case (fields response n' st')
  note route = extract_route_admitted [OF assms, of e n st]
  show ?thesis
  proof (cases response)
    case (Bare data)
    with fields have h: "extract_shot_data e cfg sess req rd (n, st) = (Bare data, n', st')"
      by simp
    from extract_shot_data_Bare [OF h]
    have "map_of data ''rate_limit'' = None" "map_of data ''success'' = Some (JBool True)"
      by auto
    with route h show ?thesis by simp
  next
    case (WithStatus data status)
    with fields have h:
      "extract_shot_data e cfg sess req rd (n, st) = (WithStatus data status, n', st')"
      by simp
    from extract_shot_data_WithStatus [OF h] obtain msg where
      "status = 400 \<or> status = 422 \<or> status = 500" "data = [(''error'', JStr msg)]"
      by auto
    with route h show ?thesis by simp
  qed
qed

theorem rate_limit_on_tuples_only_witness:
  "fst (extract_route good_env sample_cfg sample_session sample_request sample_readings
          (Map.empty, sample_net, sample_store)) =
     Inr (Bare [(''success'', JBool True), (''shot_id'', JStr ''fbe5c72134e0''),
                (''data'', sample_metrics), (''processor'', JStr ''gemini (0.50s)''),
                (''saved'', JBool True)])
   \<and> fst (extract_route good_env sample_cfg sample_session no_image_request sample_readings
            (Map.empty, sample_net, sample_store)) =
       Inr (WithStatus [(''error'', JStr ''No image provided''),
                        (''rate_limit'', rate_info 0 20)] 400)"
proof -
  have l: "(0::int) < 20" by simp
  from rate_limit_on_tuples_only [where req = sample_request and e = good_env
      and n = sample_net and st = sample_store, OF quota_key_sample redis_empty_count l]
  have a: "fst (extract_route good_env sample_cfg sample_session sample_request sample_readings
          (Map.empty, sample_net, sample_store)) =
     Inr (Bare [(''success'', JBool True), (''shot_id'', JStr ''fbe5c72134e0''),
                (''data'', sample_metrics), (''processor'', JStr ''gemini (0.50s)''),
                (''saved'', JBool True)])"
    by (simp add: handler_good)
  from rate_limit_on_tuples_only [where req = no_image_request and e = good_env
      and n = sample_net and st = sample_store, OF quota_key_sample redis_empty_count l]
  have b: "fst (extract_route good_env sample_cfg sample_session no_image_request
            sample_readings (Map.empty, sample_net, sample_store)) =
       Inr (WithStatus [(''error'', JStr ''No image provided''),
                        (''rate_limit'', rate_info 0 20)] 400)"
    by (simp add: handler_no_image)
  from a b show ?thesis by (rule conjI)
qed

subsection \<open>QuotaTracker: requests one after the other\<close>

lemma run_quota_append:
  "run_quota cfg sess req (xs @ ys) r =
     (fst (run_quota cfg sess req xs r) @ fst (run_quota cfg sess req ys (snd (run_quota cfg sess req xs r))),
      snd (run_quota cfg sess req ys (snd (run_quota cfg sess req xs r))))"
  by (induction xs arbitrary: r) (auto simp: case_prod_beta Let_def)

lemma quota_key_user:
  assumes "sess ''user_id'' = Some user_id" "user_id \<noteq> []"
  shows "quota_key cfg sess req now =
           (''rate_limit:user:'' @ user_id @ '':'' @ strftime_ymd now, DAILY_LIMIT_AUTH cfg)"
  using assms by (simp add: quota_key_def)

lemma live_elapse:
  assumes "live r key c" "d < 86400"
  shows "(case redis_get (elapse d r) key of None \<Rightarrow> 0 | Some v \<Rightarrow> v) = c"
  using assms by (auto simp: live_def elapse_def redis_get_def)

lemma live_after:
  assumes "(case redis_get r key of None \<Rightarrow> 0 | Some v \<Rightarrow> v) = c"
  shows "live (redis_expire (redis_incr r key) key 86400) key (c + 1)"
  using assms
  by (auto simp: live_def redis_get_def redis_expire_def redis_incr_def split: option.splits)

lemma upt_0_Suc: "[0..<Suc n] = 0 # map Suc [0..<n]"
  by (simp add: upt_conv_Cons map_Suc_upt del: upt_Suc)

lemma run_quota_admits:
  assumes "live r key c"
    and "\<forall>(d, rd) \<in> set calls. d < 86400 \<and> quota_key cfg sess req (now_key rd) = (key, limit)"
    and "c + int (length calls) \<le> limit"
  shows "fst (run_quota cfg sess req calls r) =
           map (\<lambda>i. Inr (Admitted (c + int i) limit)) [0..<length calls]
         \<and> live (snd (run_quota cfg sess req calls r)) key (c + int (length calls))"
  using assms
proof (induction calls arbitrary: r c)
  case Nil
  then show ?case by simp
next
  case (Cons call calls)
  obtain d rd where call: "call = (d, rd)" by (cases call)
  from Cons.prems(2) call have d: "d < 86400"
    and k: "quota_key cfg sess req (now_key rd) = (key, limit)"
    by auto
  have cur: "(case redis_get (elapse d r) key of None \<Rightarrow> 0 | Some v \<Rightarrow> v) = c"
    using Cons.prems(1) d by (rule live_elapse)
  have lt: "c < limit" using Cons.prems(3) by simp
  let ?r1 = "redis_expire (redis_incr (elapse d r) key) key 86400"
  have q: "check_quota cfg sess req rd (elapse d r) = (Inr (Admitted c limit), ?r1)"
    using k cur lt by (rule check_quota_admits)
  have l1: "live ?r1 key (c + 1)"
    using cur by (rule live_after)
  have rest: "\<forall>(d, rd) \<in> set calls. d < 86400 \<and> quota_key cfg sess req (now_key rd) = (key, limit)"
    using Cons.prems(2) by simp
  have le: "c + 1 + int (length calls) \<le> limit"
    using Cons.prems(3) by simp
  note ih = Cons.IH [OF l1 rest le]
  have m: "map (\<lambda>i. Inr (Admitted (c + int i) limit)) [0..<Suc (length calls)] =
           Inr (Admitted c limit) # map (\<lambda>i. Inr (Admitted (c + 1 + int i) limit)) [0..<length calls]"
    unfolding upt_0_Suc by (simp add: comp_def add.assoc)
  show ?case
    using ih unfolding call
    by (simp add: q case_prod_beta m add.assoc del: upt_Suc)
qed


lemma twenty_then_denied:
  assumes u: "sess ''user_id'' = Some user_id" "user_id \<noteq> []"
    and fresh: "r (''rate_limit:user:'' @ user_id @ '':'' @ date) = None"
    and len: "length calls = 20"
    and same: "\<forall>(d, rd) \<in> set (calls @ [(d21, rd21)]).
                 d < 86400 \<and> strftime_ymd (now_key rd) = date"
    and tom: "add_one_day (now_reset rd21) = Some tomorrow"
  shows "fst (run_quota (CONFIG openai_key gemini_key) sess req (calls @ [(d21, rd21)]) r) =
           map (\<lambda>i. Inr (Admitted (int i) 20)) [0..<20]
           @ [Inr (Denied [(''error'', JStr ''Daily limit exceeded''), (''limit'', JInt 20),
                           (''reset_time'', JStr (isoformat (replace_hms0 tomorrow)))])]"
proof -
  define key where "key = ''rate_limit:user:'' @ user_id @ '':'' @ date"
  define cfg where "cfg = CONFIG openai_key gemini_key"
  have lim: "DAILY_LIMIT_AUTH cfg = 20"
    by (simp add: cfg_def CONFIG_def)
  have qk: "quota_key cfg sess req (now_key rd) = (key, 20)"
    if "strftime_ymd (now_key rd) = date" for rd
    using that by (simp add: quota_key_user [where sess = sess, OF u] lim key_def)
  have l0: "live r key 0"
    using fresh by (simp add: live_def key_def)
  have all: "\<forall>(d, rd) \<in> set calls. d < 86400 \<and> quota_key cfg sess req (now_key rd) = (key, 20)"
    using same qk by auto
  have le: "0 + int (length calls) \<le> 20"
    using len by simp
  from run_quota_admits [OF l0 all le]
  have first: "fst (run_quota cfg sess req calls r) =
                 map (\<lambda>i. Inr (Admitted (int i) 20)) [0..<20]"
    and l20: "live (snd (run_quota cfg sess req calls r)) key 20"
    by (simp_all add: len)
  from same have d21: "d21 < 86400" and k21: "quota_key cfg sess req (now_key rd21) = (key, 20)"
    using qk by auto
  have cur: "(case redis_get (elapse d21 (snd (run_quota cfg sess req calls r))) key of
                None \<Rightarrow> 0 | Some v \<Rightarrow> v) = 20"
    using l20 d21 by (rule live_elapse)
  then have "(case redis_get (elapse d21 (snd (run_quota cfg sess req calls r))) key of
                None \<Rightarrow> 0 | Some v \<Rightarrow> v) \<ge> 20"
    by simp
  from check_quota_denies [OF k21 this]
  have "fst (check_quota cfg sess req rd21 (elapse d21 (snd (run_quota cfg sess req calls r)))) =
          denial 20 (now_reset rd21)"
    by simp
  then have "fst (run_quota cfg sess req [(d21, rd21)] (snd (run_quota cfg sess req calls r))) =
          [Inr (Denied [(''error'', JStr ''Daily limit exceeded''), (''limit'', JInt 20),
                        (''reset_time'', JStr (isoformat (replace_hms0 tomorrow)))])]"
    by (simp add: case_prod_beta denial_def tom)
  with first show ?thesis
    unfolding cfg_def [symmetric] by (simp add: run_quota_append del: upt_Suc)
qed

lemma rate_info_remaining:
  "rate_info (int i) 20 =
     JObj [(''used'', JInt (int i + 1)), (''limit'', JInt 20), (''remaining'', JInt (19 - int i))]"
  by (simp add: rate_info_def)

lemma strftime_readings_at: "strftime_ymd (now_key (readings_at i)) = ''2024-05-01''"
  by (simp add: readings_at_def Let_def strftime_ymd_def sample_now_def zero_pad_numeral
      digit_def)

lemma sample_calls_same_day:
  "\<forall>(d, rd) \<in> set (sample_calls @ [(60, readings_at 20)]).
     d < 86400 \<and> strftime_ymd (now_key rd) = ''2024-05-01''"
  by (auto simp: sample_calls_def strftime_readings_at)

lemma add_one_day_sample: "add_one_day (now_reset (readings_at 20)) = Some sample_tomorrow"
  by (simp add: readings_at_def Let_def add_one_day_def sample_now_def days_in_month_def
      sample_tomorrow_def)

lemma isoformat_reset:
  "isoformat (replace_hms0 sample_tomorrow) = ''2024-05-02T00:00:00.123456''"
  by (simp add: isoformat_def strftime_ymd_def replace_hms0_def sample_tomorrow_def
      zero_pad_numeral digit_def)

lemma isoformat_midnight:
  "map_option isoformat (next_midnight (now_reset (readings_at 20))) = Some ''2024-05-02T00:00:00''"
  by (simp add: next_midnight_def add_one_day_sample)
     (simp add: isoformat_def strftime_ymd_def sample_tomorrow_def zero_pad_numeral digit_def)

lemma sample_fresh: "Map.empty (''rate_limit:user:'' @ ''u1'' @ '':'' @ ''2024-05-01'') = None"
  by simp

lemma sample_calls_length: "length sample_calls = 20"
  by (simp add: sample_calls_def)

lemma sample_user: "sample_session ''user_id'' = Some ''u1''" "''u1'' \<noteq> []"
  by (simp_all add: sample_session_def)

text \<open>
  Claim C4, as the code has it. For a logged-in user whose counter for the day does not
  exist yet, 21 requests served one after the other on the same day of the server's clock,
  each less than 24 hours after the one before: the first 20 are admitted, the count read
  going from 0 to 19, so that \<open>remaining\<close> goes from 19 down to 0; the 21st is denied, with
  limit 20 and a reset time on the next calendar day of the server's local clock, with
  hour, minute and second zero.
\<close>

theorem twenty_calls_then_denied:
  assumes "sess ''user_id'' = Some user_id" "user_id \<noteq> []"
    and "r (''rate_limit:user:'' @ user_id @ '':'' @ date) = None"
    and "length calls = 20"
    and "\<forall>(d, rd) \<in> set (calls @ [(d21, rd21)]).
            d < 86400 \<and> strftime_ymd (now_key rd) = date"
    and "add_one_day (now_reset rd21) = Some tomorrow"
  shows "(\<exists>us. fst (run_quota (CONFIG openai_key gemini_key) sess req (calls @ [(d21, rd21)]) r) =
            map (\<lambda>i. Inr (Admitted (int i) 20)) [0..<20]
            @ [Inr (Denied [(''error'', JStr ''Daily limit exceeded''), (''limit'', JInt 20),
                            (''reset_time'',
                             JStr (isoformat (tomorrow\<lparr>hour := 0, minute := 0, second := 0,
                                                       microsecond := us\<rparr>)))])])
         \<and> (\<forall>i. rate_info (int i) 20 =
                  JObj [(''used'', JInt (int i + 1)), (''limit'', JInt 20),
                        (''remaining'', JInt (19 - int i))])"
proof -
  have "replace_hms0 tomorrow =
          tomorrow\<lparr>hour := 0, minute := 0, second := 0, microsecond := microsecond tomorrow\<rparr>"
    by (simp add: replace_hms0_def)
  with twenty_then_denied [where sess = sess and r = r and openai_key = openai_key
      and gemini_key = gemini_key and req = req, OF assms]
  have "\<exists>us. fst (run_quota (CONFIG openai_key gemini_key) sess req (calls @ [(d21, rd21)]) r) =
            map (\<lambda>i. Inr (Admitted (int i) 20)) [0..<20]
            @ [Inr (Denied [(''error'', JStr ''Daily limit exceeded''), (''limit'', JInt 20),
                            (''reset_time'',
                             JStr (isoformat (tomorrow\<lparr>hour := 0, minute := 0, second := 0,
                                                       microsecond := us\<rparr>)))])]"
    by (intro exI [of _ "microsecond tomorrow"]) simp
  then show ?thesis
    using rate_info_remaining by blast
qed

theorem twenty_calls_then_denied_witness:
  "\<exists>us. fst (run_quota (CONFIG (Some ''sk-test'') (Some ''AIza-test'')) sample_session
               sample_request (sample_calls @ [(60, readings_at 20)]) Map.empty) =
         map (\<lambda>i. Inr (Admitted (int i) 20)) [0..<20]
         @ [Inr (Denied [(''error'', JStr ''Daily limit exceeded''), (''limit'', JInt 20),
                         (''reset_time'',
                          JStr (isoformat (sample_tomorrow\<lparr>hour := 0, minute := 0, second := 0,
                                                           microsecond := us\<rparr>)))])]"
  by (rule twenty_calls_then_denied [where sess = sample_session and r = Map.empty,
        OF sample_user sample_fresh sample_calls_length sample_calls_same_day
        add_one_day_sample, THEN conjunct1])

text \<open>
  Claim C4 as stated fails on the reset time: \<^verbatim>\<open>replace(hour=0, minute=0, second=0)\<close>
  keeps the microsecond of \<^verbatim>\<open>datetime.now()\<close>. With the 21st request at
  10:50:00.123456 on 2024-05-01 the reported reset time is 2024-05-02T00:00:00.123456;
  midnight is 2024-05-02T00:00:00 (taking the server's clock to be UTC, the case most
  favourable to the claim).
\<close>

theorem reset_time_counterexample:
  "last (fst (run_quota sample_cfg sample_session sample_request (sample_calls @ [last_call])
               Map.empty)) =
     Inr (Denied [(''error'', JStr ''Daily limit exceeded''), (''limit'', JInt 20),
                  (''reset_time'', JStr ''2024-05-02T00:00:00.123456'')])
   \<and> map_option isoformat (next_midnight (now_reset (snd last_call)))
       = Some ''2024-05-02T00:00:00''"
proof -
  note t = twenty_then_denied [where sess = sample_session and r = Map.empty
      and openai_key = "Some ''sk-test''" and gemini_key = "Some ''AIza-test''"
      and req = sample_request,
      OF sample_user sample_fresh sample_calls_length sample_calls_same_day
      add_one_day_sample]
  show ?thesis
    unfolding sample_cfg_def last_call_def t
    by (simp add: isoformat_reset isoformat_midnight del: upt_Suc)
qed

subsection \<open>QuotaTracker: two requests at the same time\<close>

lemma worker_alone:
  assumes "quota_key cfg sess req (now_key rd) = (key, limit)"
  shows "interleave key limit [True, True, True] (AtGet, w2, r) =
           (Finished ((case redis_get r key of None \<Rightarrow> 0 | Some v \<Rightarrow> v) < limit), w2,
            snd (check_quota cfg sess req rd r))"
  using assms by (simp add: check_quota_def Let_def)

lemma redis_get_expire: "redis_get (redis_expire r key seconds) key = redis_get r key"
  by (simp add: redis_get_def redis_expire_def split: option.splits)

lemma redis_get_incr:
  "redis_get (redis_incr r key) key =
     Some ((case redis_get r key of None \<Rightarrow> 0 | Some v \<Rightarrow> v) + 1)"
  by (simp add: redis_get_def redis_incr_def split: option.splits)

lemma slot_taken_step_first:
  "slot_taken key limit (w1, w2, r)
     \<Longrightarrow> slot_taken key limit (fst (step key limit w1 r), w2, snd (step key limit w1 r))"
  by (auto simp: slot_taken_def redis_get_expire)

lemma slot_taken_step_second:
  "slot_taken key limit (w1, w2, r)
     \<Longrightarrow> slot_taken key limit (w1, fst (step key limit w2 r), snd (step key limit w2 r))"
  by (auto simp: slot_taken_def)

lemma slot_taken_interleave:
  "slot_taken key limit s \<Longrightarrow> slot_taken key limit (interleave key limit schedule s)"
proof (induction schedule arbitrary: s)
  case Nil
  then show ?case by simp
next
  case (Cons first schedule)
  obtain w1 w2 r where s: "s = (w1, w2, r)" by (cases s)
  show ?case
  proof (cases first)
    case True
    from Cons.prems have "slot_taken key limit
        (fst (step key limit w1 r), w2, snd (step key limit w1 r))"
      unfolding s by (rule slot_taken_step_first)
    from Cons.IH [OF this] show ?thesis
      unfolding s by (simp add: True case_prod_beta)
  next
    case False
    from Cons.prems have "slot_taken key limit
        (w1, fst (step key limit w2 r), snd (step key limit w2 r))"
      unfolding s by (rule slot_taken_step_second)
    from Cons.IH [OF this] show ?thesis
      unfolding s by (simp add: False case_prod_beta)
  qed
qed

lemma slot_taken_start:
  assumes "(case redis_get r key of None \<Rightarrow> 0 | Some v \<Rightarrow> v) = limit - 1"
  shows "slot_taken key limit (interleave key limit [True, True] (AtGet, AtGet, r))"
  using assms
  by (simp add: slot_taken_def redis_get_incr)

lemma interleave_append:
  "interleave key limit (xs @ ys) s = interleave key limit ys (interleave key limit xs s)"
proof (induction xs arbitrary: s)
  case Nil
  then show ?case by simp
next
  case (Cons x xs)
  obtain w1 w2 r where s: "s = (w1, w2, r)" by (cases s)
  show ?case unfolding s by (simp add: Cons.IH case_prod_beta)
qed

lemma last_slot_count:
  "(case redis_get last_slot ''rate_limit:user:u1:2024-05-01'' of None \<Rightarrow> 0 | Some v \<Rightarrow> v)
     = 20 - 1"
  by (simp add: last_slot_def redis_get_def)

lemma sequential_sample:
  "interleave ''rate_limit:user:u1:2024-05-01'' 20 [True, True, True, False, False, False]
       (AtGet, AtGet, last_slot) =
     (Finished True, Finished False,
      [''rate_limit:user:u1:2024-05-01'' \<mapsto> (20, Some 86400)])"
  by (simp add: last_slot_def redis_get_def redis_incr_def redis_expire_def)

lemma both_read_step_first:
  "both_read key c (w1, w2, r)
     \<Longrightarrow> both_read key c (fst (step key limit w1 r), w2, snd (step key limit w1 r))"
  by (cases w1) (auto simp: both_read_def redis_get_expire redis_get_incr split: option.splits)

lemma both_read_step_second:
  "both_read key c (w1, w2, r)
     \<Longrightarrow> both_read key c (w1, fst (step key limit w2 r), snd (step key limit w2 r))"
  by (cases w2) (auto simp: both_read_def redis_get_expire redis_get_incr split: option.splits)

lemma both_read_interleave:
  "both_read key c s \<Longrightarrow> both_read key c (interleave key limit schedule s)"
proof (induction schedule arbitrary: s)
  case Nil
  then show ?case by simp
next
  case (Cons first schedule)
  obtain w1 w2 r where s: "s = (w1, w2, r)" by (cases s)
  show ?case
  proof (cases first)
    case True
    from Cons.prems have "both_read key c
        (fst (step key limit w1 r), w2, snd (step key limit w1 r))"
      unfolding s by (rule both_read_step_first)
    from Cons.IH [OF this] show ?thesis
      unfolding s by (simp add: True case_prod_beta)
  next
    case False
    from Cons.prems have "both_read key c
        (w1, fst (step key limit w2 r), snd (step key limit w2 r))"
      unfolding s by (rule both_read_step_second)
    from Cons.IH [OF this] show ?thesis
      unfolding s by (simp add: False case_prod_beta)
  qed
qed

lemma both_read_start:
  assumes "(case redis_get r key of None \<Rightarrow> 0 | Some v \<Rightarrow> v) = limit - 1"
    and "gets = [True, False] \<or> gets = [False, True]"
  shows "interleave key limit gets (AtGet, AtGet, r) = (AtIncr (limit - 1), AtIncr (limit - 1), r)"
    and "both_read key (limit - 1) (interleave key limit gets (AtGet, AtGet, r))"
  using assms by (auto simp: both_read_def)

lemma commands_left_step:
  "commands_left (fst (step key limit w r)) \<le> commands_left w - 1"
  by (cases w) (simp_all add: Let_def)

lemma commands_left_interleave:
  "commands_left (fst (interleave key limit schedule s))
     \<le> commands_left (fst s) - count_list schedule True
   \<and> commands_left (fst (snd (interleave key limit schedule s)))
     \<le> commands_left (fst (snd s)) - count_list schedule False"
proof (induction schedule arbitrary: s)
  case Nil
  then show ?case by simp
next
  case (Cons first schedule)
  obtain w1 w2 r where s: "s = (w1, w2, r)" by (cases s)
  show ?case
  proof (cases first)
    case True
    note ih = Cons.IH [of "(fst (step key limit w1 r), w2, snd (step key limit w1 r))"]
    note st = commands_left_step [of key limit w1 r]
    from ih st show ?thesis
      unfolding s by (simp add: True case_prod_beta) arith
  next
    case False
    note ih = Cons.IH [of "(w1, fst (step key limit w2 r), snd (step key limit w2 r))"]
    note st = commands_left_step [of key limit w2 r]
    from ih st show ?thesis
      unfolding s by (simp add: False case_prod_beta) arith
  qed
qed

lemma past_get_not_denied: "past_get c w \<Longrightarrow> w \<noteq> Finished False"
  by (cases w) simp_all

lemma past_get_finished: "past_get c w \<Longrightarrow> commands_left w = 0 \<Longrightarrow> w = Finished True"
  by (cases w) simp_all

lemma both_read_finished:
  assumes "both_read key c s" "fst s = Finished True" "fst (snd s) = Finished True"
  shows "redis_get (snd (snd s)) key = Some (c + 2)"
  using assms by (auto simp: both_read_def split: option.splits)

text \<open>
  Claim C1, as the code has it. The check and the increment are two commands, GET and
  INCR, and nothing makes the pair atomic. With one slot left: if the first worker's INCR
  is served before the second worker's GET, then under every schedule of the remaining
  commands the second worker is not admitted and the counter stays at the limit; the
  first worker alone is admitted. If both GETs are served before either INCR, then under
  every schedule of the remaining commands neither worker is denied, and once each worker
  has sent its two remaining commands both are admitted and the counter is one above the
  limit.
\<close>

theorem get_then_incr_interleaved:
  assumes "(case redis_get r key of None \<Rightarrow> 0 | Some v \<Rightarrow> v) = limit - 1"
  shows "((fst (interleave key limit ([True, True] @ schedule) (AtGet, AtGet, r))
            = AtExpire (limit - 1)
          \<or> fst (interleave key limit ([True, True] @ schedule) (AtGet, AtGet, r))
            = Finished True)
         \<and> (fst (snd (interleave key limit ([True, True] @ schedule) (AtGet, AtGet, r)))
              = AtGet
            \<or> fst (snd (interleave key limit ([True, True] @ schedule) (AtGet, AtGet, r)))
              = Finished False)
         \<and> redis_get (snd (snd (interleave key limit ([True, True] @ schedule)
                                   (AtGet, AtGet, r)))) key = Some limit)
       \<and> (gets = [True, False] \<or> gets = [False, True] \<longrightarrow>
            fst (interleave key limit (gets @ rest) (AtGet, AtGet, r)) \<noteq> Finished False
            \<and> fst (snd (interleave key limit (gets @ rest) (AtGet, AtGet, r))) \<noteq> Finished False
            \<and> (2 \<le> count_list rest True \<and> 2 \<le> count_list rest False \<longrightarrow>
                 fst (interleave key limit (gets @ rest) (AtGet, AtGet, r)) = Finished True
                 \<and> fst (snd (interleave key limit (gets @ rest) (AtGet, AtGet, r)))
                     = Finished True
                 \<and> redis_get (snd (snd (interleave key limit (gets @ rest)
                                           (AtGet, AtGet, r)))) key = Some (limit + 1)))"
proof (rule conjI)
  have "slot_taken key limit
          (interleave key limit schedule (interleave key limit [True, True] (AtGet, AtGet, r)))"
    using slot_taken_start [OF assms] by (rule slot_taken_interleave)
  then show "(fst (interleave key limit ([True, True] @ schedule) (AtGet, AtGet, r))
            = AtExpire (limit - 1)
          \<or> fst (interleave key limit ([True, True] @ schedule) (AtGet, AtGet, r))
            = Finished True)
         \<and> (fst (snd (interleave key limit ([True, True] @ schedule) (AtGet, AtGet, r)))
              = AtGet
            \<or> fst (snd (interleave key limit ([True, True] @ schedule) (AtGet, AtGet, r)))
              = Finished False)
         \<and> redis_get (snd (snd (interleave key limit ([True, True] @ schedule)
                                   (AtGet, AtGet, r)))) key = Some limit"
    unfolding interleave_append slot_taken_def .
next
  show "gets = [True, False] \<or> gets = [False, True] \<longrightarrow>
            fst (interleave key limit (gets @ rest) (AtGet, AtGet, r)) \<noteq> Finished False
            \<and> fst (snd (interleave key limit (gets @ rest) (AtGet, AtGet, r))) \<noteq> Finished False
            \<and> (2 \<le> count_list rest True \<and> 2 \<le> count_list rest False \<longrightarrow>
                 fst (interleave key limit (gets @ rest) (AtGet, AtGet, r)) = Finished True
                 \<and> fst (snd (interleave key limit (gets @ rest) (AtGet, AtGet, r)))
                     = Finished True
                 \<and> redis_get (snd (snd (interleave key limit (gets @ rest)
                                           (AtGet, AtGet, r)))) key = Some (limit + 1))"
  proof (rule impI)
    assume g: "gets = [True, False] \<or> gets = [False, True]"
    define s0 where "s0 = interleave key limit gets (AtGet, AtGet, r)"
    define s where "s = interleave key limit rest s0"
    have s0: "s0 = (AtIncr (limit - 1), AtIncr (limit - 1), r)"
      unfolding s0_def using assms g by (rule both_read_start(1))
    have "both_read key (limit - 1) s0"
      unfolding s0_def using assms g by (rule both_read_start(2))
    then have b: "both_read key (limit - 1) s"
      unfolding s_def by (rule both_read_interleave)
    then have p: "past_get (limit - 1) (fst s)" "past_get (limit - 1) (fst (snd s))"
      by (simp_all add: both_read_def)
    have e: "interleave key limit (gets @ rest) (AtGet, AtGet, r) = s"
      unfolding s_def s0_def by (rule interleave_append)
    have d: "fst s \<noteq> Finished False \<and> fst (snd s) \<noteq> Finished False"
      using p by (simp add: past_get_not_denied)
    have f: "fst s = Finished True \<and> fst (snd s) = Finished True
             \<and> redis_get (snd (snd s)) key = Some (limit + 1)"
      if c: "2 \<le> count_list rest True \<and> 2 \<le> count_list rest False"
    proof -
      from commands_left_interleave [of key limit rest s0] c
      have "commands_left (fst s) = 0" "commands_left (fst (snd s)) = 0"
        unfolding s_def [symmetric] by (simp_all add: s0)
      with p have w: "fst s = Finished True" "fst (snd s) = Finished True"
        by (simp_all add: past_get_finished)
      from both_read_finished [OF b w] w show ?thesis by simp
    qed
    from d f show "fst (interleave key limit (gets @ rest) (AtGet, AtGet, r)) \<noteq> Finished False
            \<and> fst (snd (interleave key limit (gets @ rest) (AtGet, AtGet, r))) \<noteq> Finished False
            \<and> (2 \<le> count_list rest True \<and> 2 \<le> count_list rest False \<longrightarrow>
                 fst (interleave key limit (gets @ rest) (AtGet, AtGet, r)) = Finished True
                 \<and> fst (snd (interleave key limit (gets @ rest) (AtGet, AtGet, r)))
                     = Finished True
                 \<and> redis_get (snd (snd (interleave key limit (gets @ rest)
                                           (AtGet, AtGet, r)))) key = Some (limit + 1))"
      unfolding e by blast
  qed
qed

theorem get_then_incr_interleaved_witness:
  "(case redis_get last_slot ''rate_limit:user:u1:2024-05-01'' of None \<Rightarrow> 0 | Some v \<Rightarrow> v)
     = 20 - 1
   \<and> fst (snd (interleave ''rate_limit:user:u1:2024-05-01'' 20
               ([True, True] @ [True, False, False, False]) (AtGet, AtGet, last_slot)))
     = Finished False
   \<and> redis_get (snd (snd (interleave ''rate_limit:user:u1:2024-05-01'' 20
                            ([True, True] @ [True, False, False, False])
                            (AtGet, AtGet, last_slot))))
         ''rate_limit:user:u1:2024-05-01'' = Some 20
   \<and> 2 \<le> count_list [True, True, False, False] True
   \<and> 2 \<le> count_list [True, True, False, False] False
   \<and> fst (interleave ''rate_limit:user:u1:2024-05-01'' 20
            ([False, True] @ [True, True, False, False]) (AtGet, AtGet, last_slot))
       = Finished True
   \<and> fst (snd (interleave ''rate_limit:user:u1:2024-05-01'' 20
                 ([False, True] @ [True, True, False, False]) (AtGet, AtGet, last_slot)))
       = Finished True
   \<and> redis_get (snd (snd (interleave ''rate_limit:user:u1:2024-05-01'' 20
                            ([False, True] @ [True, True, False, False])
                            (AtGet, AtGet, last_slot))))
         ''rate_limit:user:u1:2024-05-01'' = Some (20 + 1)"
proof -
  note t = get_then_incr_interleaved [OF last_slot_count,
      where schedule = "[True, False, False, False]" and gets = "[False, True]"
        and rest = "[True, True, False, False]"]
  have e: "[True, True] @ [True, False, False, False] = [True, True, True, False, False, False]"
    by simp
  have d: "fst (snd (interleave ''rate_limit:user:u1:2024-05-01'' 20
               ([True, True] @ [True, False, False, False]) (AtGet, AtGet, last_slot)))
     = Finished False"
    unfolding e sequential_sample by simp
  have g: "[False, True] = [True, False] \<or> [False, True] = [False, True]"
    by simp
  have c: "2 \<le> count_list [True, True, False, False] True
           \<and> 2 \<le> count_list [True, True, False, False] False"
    by simp
  note first = t [THEN conjunct1, THEN conjunct2, THEN conjunct2]
  note second = t [THEN conjunct2, THEN mp, OF g, THEN conjunct2, THEN conjunct2, THEN mp, OF c]
  from last_slot_count d first c second show ?thesis
    by (intro conjI) (simp_all only:)
qed

text \<open>
  Claim C1 as stated fails when the two GETs are served before either INCR: with the
  counter at 19 of 20, both workers read 19, both pass the comparison, both send INCR, and
  both are admitted; the counter ends at 21.
\<close>

theorem both_admitted_counterexample:
  "interleave ''rate_limit:user:u1:2024-05-01'' 20 [True, False, True, False, True, False]
       (AtGet, AtGet, last_slot) =
     (Finished True, Finished True,
      [''rate_limit:user:u1:2024-05-01'' \<mapsto> (21, Some 86400)])
   \<and> redis_get last_slot ''rate_limit:user:u1:2024-05-01'' = Some 19"
  by (simp add: last_slot_def redis_get_def redis_incr_def redis_expire_def)

end
